theory Spec2Isabelle
  imports Complex_Main
begin

section \<open>JavaScript values read by the service\<close>

text \<open>
  The body of the search response is whatever \<^verbatim>\<open>response.json()\<close> parses, and the source
  reads it untyped (\<^verbatim>\<open>any\<close>). It is modelled as a JSON value. Strings are byte lists holding
  the UTF-8 encoding of the (well-formed) JavaScript string. A number is represented by the
  text that ECMAScript's Number-to-string conversion gives it, so zero (of either sign) is
  \<open>''0''\<close> and a literal too large for a double is \<open>''Infinity''\<close>. An object is the list of
  its own properties in enumeration order, each key once. The JavaScript value
  \<^verbatim>\<open>undefined\<close> is \<open>None\<close> of type \<open>json option\<close>.
\<close>

datatype json =
    JNull
  | JBool bool
  | JNum string
  | JStr string
  | JArr "json list"
  | JObj "(string \<times> json) list"

type_synonym jsval = "json option"

text \<open>
  A thrown value. The collaborators and the engine throw Error objects, of which the service
  only reads \<^verbatim>\<open>message\<close>.
\<close>

datatype exn = Error (message: string)

text \<open>Truthiness, as \<^verbatim>\<open>||\<close> and \<^verbatim>\<open>!\<close> test it.\<close>

fun truthy :: "json \<Rightarrow> bool" where
  "truthy JNull = False"
| "truthy (JBool b) = b"
| "truthy (JNum n) = (n \<noteq> ''0'')"
| "truthy (JStr s) = (s \<noteq> [])"
| "truthy (JArr xs) = True"
| "truthy (JObj kvs) = True"

fun truthy_val :: "jsval \<Rightarrow> bool" where
  "truthy_val None = False"
| "truthy_val (Some v) = truthy v"

text \<open>
  The property names the source reads from parsed JSON. None of them is defined on a
  built-in prototype, so reading one from a value other than an object gives
  \<^verbatim>\<open>undefined\<close>, and reading one from \<^verbatim>\<open>null\<close> throws a TypeError (the message is V8's).
\<close>

datatype property = P_result | P_hits | P_fields | P_combined_context

fun prop_name :: "property \<Rightarrow> string" where
  "prop_name P_result = ''result''"
| "prop_name P_hits = ''hits''"
| "prop_name P_fields = ''fields''"
| "prop_name P_combined_context = ''combined_context''"

fun get_prop :: "json \<Rightarrow> property \<Rightarrow> exn + jsval" where
  "get_prop JNull p =
     Inl (Error (''Cannot read properties of null (reading '' @ [CHR 0x27] @ prop_name p @ [CHR 0x27] @ '')''))"
| "get_prop (JObj kvs) p = Inr (map_of kvs (prop_name p))"
| "get_prop v p = Inr None"

text \<open>Optional chaining \<^verbatim>\<open>v?.p\<close>: \<^verbatim>\<open>undefined\<close> when \<open>v\<close> is \<^verbatim>\<open>undefined\<close> or \<^verbatim>\<open>null\<close>.\<close>

fun get_prop_opt :: "jsval \<Rightarrow> property \<Rightarrow> jsval" where
  "get_prop_opt None p = None"
| "get_prop_opt (Some (JObj kvs)) p = map_of kvs (prop_name p)"
| "get_prop_opt (Some v) p = None"

subsection \<open>\<^verbatim>\<open>JSON.stringify\<close>\<close>

definition hex_digit :: "nat \<Rightarrow> char" where
  "hex_digit n = ''0123456789abcdef'' ! (n mod 16)"

definition quote_char :: "char \<Rightarrow> string" where
  "quote_char c =
     (if c = CHR 0x08 then [CHR 0x5C, CHR ''b'']
      else if c = CHR 0x09 then [CHR 0x5C, CHR ''t'']
      else if c = CHR 0x0A then [CHR 0x5C, CHR ''n'']
      else if c = CHR 0x0C then [CHR 0x5C, CHR ''f'']
      else if c = CHR 0x0D then [CHR 0x5C, CHR ''r'']
      else if c = CHR 0x22 then [CHR 0x5C, CHR 0x22]
      else if c = CHR 0x5C then [CHR 0x5C, CHR 0x5C]
      else if (of_char c :: nat) < 32
        then [CHR 0x5C] @ ''u00'' @ [hex_digit (of_char c div 16), hex_digit (of_char c)]
      else [c])"

definition quote :: "string \<Rightarrow> string" where
  "quote s = [CHR 0x22] @ concat (map quote_char s) @ [CHR 0x22]"

fun join_strings :: "string \<Rightarrow> string list \<Rightarrow> string" where
  "join_strings sep [] = []"
| "join_strings sep [x] = x"
| "join_strings sep (x # y # ys) = x @ sep @ join_strings sep (y # ys)"

text \<open>
  No value parsed from JSON is a function, \<^verbatim>\<open>undefined\<close> or cyclic, so serialisation
  neither calls a \<^verbatim>\<open>toJSON\<close> nor skips a property nor throws. A number that is not finite
  is written \<^verbatim>\<open>null\<close>.
\<close>

fun JSON_stringify :: "json \<Rightarrow> string" where
  "JSON_stringify JNull = ''null''"
| "JSON_stringify (JBool b) = (if b then ''true'' else ''false'')"
| "JSON_stringify (JNum n) = (if n = ''Infinity'' \<or> n = ''-Infinity'' then ''null'' else n)"
| "JSON_stringify (JStr s) = quote s"
| "JSON_stringify (JArr xs) = ''['' @ join_strings '','' (map JSON_stringify xs) @ '']''"
| "JSON_stringify (JObj kvs) =
     ''{'' @ join_strings '','' (map (\<lambda>(k, v). quote k @ '':'' @ JSON_stringify v) kvs) @ ''}''"

text \<open>\<^verbatim>\<open>JSON.stringify(undefined)\<close> is \<^verbatim>\<open>undefined\<close>.\<close>

fun JSON_stringify_val :: "jsval \<Rightarrow> jsval" where
  "JSON_stringify_val None = None"
| "JSON_stringify_val (Some v) = Some (JStr (JSON_stringify v))"

subsection \<open>Conversion to string, as \<^verbatim>\<open>Array.prototype.join\<close> does it\<close>

fun sequence :: "('e + 'a) list \<Rightarrow> 'e + 'a list" where
  "sequence [] = Inr []"
| "sequence (x # xs) =
     (case x of
        Inl e \<Rightarrow> Inl e
      | Inr v \<Rightarrow> (case sequence xs of Inl e \<Rightarrow> Inl e | Inr vs \<Rightarrow> Inr (v # vs)))"

text \<open>
  An array converts by joining its elements with a comma, \<^verbatim>\<open>null\<close> elements giving the
  empty string. A plain object converts to \<^verbatim>\<open>[object Object]\<close>, unless an own property
  named \<^verbatim>\<open>toString\<close> (never callable in parsed JSON) hides the inherited method: then no
  conversion is left and a TypeError is thrown.
\<close>

fun to_string :: "json \<Rightarrow> exn + string" where
  "to_string JNull = Inr ''null''"
| "to_string (JBool b) = Inr (if b then ''true'' else ''false'')"
| "to_string (JNum n) = Inr n"
| "to_string (JStr s) = Inr s"
| "to_string (JArr xs) =
     (case sequence (map (\<lambda>x. if x = JNull then Inr [] else to_string x) xs) of
        Inl e \<Rightarrow> Inl e
      | Inr ss \<Rightarrow> Inr (join_strings '','' ss))"
| "to_string (JObj kvs) =
     (case map_of kvs ''toString'' of
        None \<Rightarrow> Inr ''[object Object]''
      | Some v \<Rightarrow> Inl (Error ''Cannot convert object to primitive value''))"

fun elem_string :: "jsval \<Rightarrow> exn + string" where
  "elem_string None = Inr []"
| "elem_string (Some JNull) = Inr []"
| "elem_string (Some v) = to_string v"

definition array_join :: "string \<Rightarrow> jsval list \<Rightarrow> exn + string" where
  "array_join sep vs =
     (case sequence (map elem_string vs) of
        Inl e \<Rightarrow> Inl e
      | Inr ss \<Rightarrow> Inr (join_strings sep ss))"

text \<open>\<^verbatim>\<open>a || b\<close> where evaluating \<open>b\<close> has no effect.\<close>

definition js_or :: "jsval \<Rightarrow> jsval \<Rightarrow> jsval" where
  "js_or a b = (if truthy_val a then a else b)"

subsection \<open>\<^verbatim>\<open>String.prototype.trim\<close>\<close>

text \<open>The UTF-8 encodings of the code points ECMAScript counts as white space or line terminator.\<close>

definition white_space :: "string list" where
  "white_space =
     [[CHR 0x09], [CHR 0x0A], [CHR 0x0B], [CHR 0x0C], [CHR 0x0D], [CHR 0x20],
      [CHR 0xC2, CHR 0xA0],
      [CHR 0xE1, CHR 0x9A, CHR 0x80],
      [CHR 0xE2, CHR 0x80, CHR 0x80], [CHR 0xE2, CHR 0x80, CHR 0x81],
      [CHR 0xE2, CHR 0x80, CHR 0x82], [CHR 0xE2, CHR 0x80, CHR 0x83],
      [CHR 0xE2, CHR 0x80, CHR 0x84], [CHR 0xE2, CHR 0x80, CHR 0x85],
      [CHR 0xE2, CHR 0x80, CHR 0x86], [CHR 0xE2, CHR 0x80, CHR 0x87],
      [CHR 0xE2, CHR 0x80, CHR 0x88], [CHR 0xE2, CHR 0x80, CHR 0x89],
      [CHR 0xE2, CHR 0x80, CHR 0x8A],
      [CHR 0xE2, CHR 0x80, CHR 0xA8], [CHR 0xE2, CHR 0x80, CHR 0xA9],
      [CHR 0xE2, CHR 0x80, CHR 0xAF],
      [CHR 0xE2, CHR 0x81, CHR 0x9F],
      [CHR 0xE3, CHR 0x80, CHR 0x80],
      [CHR 0xEF, CHR 0xBB, CHR 0xBF]]"

fun strip_one :: "string list \<Rightarrow> string \<Rightarrow> string option" where
  "strip_one [] s = None"
| "strip_one (t # ts) s =
     (if t \<noteq> [] \<and> take (length t) s = t then Some (drop (length t) s) else strip_one ts s)"

function trim_front :: "string list \<Rightarrow> string \<Rightarrow> string" where
  "trim_front ts s = (case strip_one ts s of None \<Rightarrow> s | Some r \<Rightarrow> trim_front ts r)"
  by pat_completeness auto
termination
proof (relation "measure (\<lambda>(ts, s). length s)")
  show "wf (measure (\<lambda>(ts :: string list, s :: string). length s))"
    by simp
next
  fix ts :: "string list" and s r :: string
  assume "strip_one ts s = Some r"
  then have "length r < length s"
  proof (induction ts)
    case Nil
    then show ?case by simp
  next
    case (Cons t ts)
    show ?case
    proof (cases "t \<noteq> [] \<and> take (length t) s = t")
      case True
      then have "length (take (length t) s) = length t" by simp
      then have "length t \<le> length s" by simp
      moreover from True have "0 < length t" by simp
      ultimately have "length s - length t < length s" by arith
      moreover from True Cons.prems have "r = drop (length t) s" by simp
      ultimately show ?thesis by simp
    next
      case False
      with Cons show ?thesis by auto
    qed
  qed
  then show "((ts, r), (ts, s)) \<in> measure (\<lambda>(ts, s). length s)"
    by simp
qed

declare trim_front.simps [simp del]

definition trim :: "string \<Rightarrow> string" where
  "trim s = rev (trim_front (map rev white_space) (rev (trim_front white_space s)))"

section \<open>The service and its collaborators\<close>

text \<open>The options the chat model is constructed with. The temperature \<^verbatim>\<open>0.3\<close> is the rational 3/10.\<close>

record llm_config =
  model :: string
  temperature :: rat
  apiKey :: string

text \<open>
  The fields of \<^verbatim>\<open>RagService\<close>. The Pinecone client is represented by the key it was
  constructed with.
\<close>

record RagService =
  llm :: llm_config
  pinecone :: string
  indexName :: string
  indexHost :: string

record http_request =
  url :: string
  http_method :: string
  headers :: "(string \<times> string) list"
  body :: string

text \<open>A fetch response: \<open>json\<close> is what \<^verbatim>\<open>await response.json()\<close> gives, a value or a rejection.\<close>

record http_response =
  ok :: bool
  statusText :: string
  json :: "exn + json"

text \<open>What the service does to the outside, in order: calls issued and log records written.\<close>

datatype event =
    is_DescribeIndex: DescribeIndex string
  | is_Invoke: Invoke llm_config string
  | is_Fetch: Fetch http_request
  | is_Log: Log string
  | is_LogError: LogError string exn

text \<open>
  The collaborators. Each outbound call answers with a value or throws, and its answer may
  depend on everything that happened before it (the trace so far), so that two calls with the
  same arguments need not agree. The configuration is fixed.
\<close>

record env =
  getOrThrow :: "string \<Rightarrow> exn + string"
  describeIndex :: "event list \<Rightarrow> string \<Rightarrow> exn + string"
  invoke :: "event list \<Rightarrow> llm_config \<Rightarrow> string \<Rightarrow> exn + string"
  fetch :: "event list \<Rightarrow> http_request \<Rightarrow> exn + http_response"

record state =
  this :: RagService
  trace :: "event list"

type_synonym 'a io = "state \<Rightarrow> (exn + 'a) \<times> state"

definition bind :: "'a io \<Rightarrow> ('a \<Rightarrow> 'b io) \<Rightarrow> 'b io" where
  "bind m f s = (case m s of (Inl e, s') \<Rightarrow> (Inl e, s') | (Inr a, s') \<Rightarrow> f a s')"

definition return :: "'a \<Rightarrow> 'a io" where
  "return a s = (Inr a, s)"

definition throw :: "exn \<Rightarrow> 'a io" where
  "throw e s = (Inl e, s)"

definition lift :: "exn + 'a \<Rightarrow> 'a io" where
  "lift r s = (r, s)"

definition logger_log :: "string \<Rightarrow> state \<Rightarrow> state" where
  "logger_log msg s = s\<lparr>trace := trace s @ [Log msg]\<rparr>"

definition logger_error :: "string \<Rightarrow> exn \<Rightarrow> state \<Rightarrow> state" where
  "logger_error msg e s = s\<lparr>trace := trace s @ [LogError msg e]\<rparr>"

definition call_describeIndex :: "env \<Rightarrow> string io" where
  "call_describeIndex E s =
     (describeIndex E (trace s) (indexName (this s)),
      s\<lparr>trace := trace s @ [DescribeIndex (indexName (this s))]\<rparr>)"

text \<open>\<^verbatim>\<open>prompt.pipe(this.llm).pipe(new StringOutputParser()).invoke(...)\<close> on the filled template.\<close>

definition call_invoke :: "env \<Rightarrow> string \<Rightarrow> string io" where
  "call_invoke E prompt s =
     (invoke E (trace s) (llm (this s)) prompt,
      s\<lparr>trace := trace s @ [Invoke (llm (this s)) prompt]\<rparr>)"

definition call_fetch :: "env \<Rightarrow> http_request \<Rightarrow> http_response io" where
  "call_fetch E req s = (fetch E (trace s) req, s\<lparr>trace := trace s @ [Fetch req]\<rparr>)"

subsection \<open>Construction and start-up\<close>

definition RagService_constructor :: "env \<Rightarrow> exn + RagService" where
  "RagService_constructor E =
     (case getOrThrow E ''GOOGLE_API_KEY'' of
        Inl e \<Rightarrow> Inl e
      | Inr google_key \<Rightarrow>
     (case getOrThrow E ''PINECONE_API_KEY'' of
        Inl e \<Rightarrow> Inl e
      | Inr pinecone_key \<Rightarrow>
     (case getOrThrow E ''PINECONE_INDEX'' of
        Inl e \<Rightarrow> Inl e
      | Inr index \<Rightarrow>
          Inr \<lparr>llm = \<lparr>model = ''gemini-2.5-flash'', temperature = 3 / 10, apiKey = google_key\<rparr>,
               pinecone = pinecone_key, indexName = index, indexHost = []\<rparr>)))"

definition onModuleInit :: "env \<Rightarrow> state \<Rightarrow> state" where
  "onModuleInit E s =
     (case call_describeIndex E s of
        (Inr host, s') \<Rightarrow>
          logger_log (''Pinecone Index Host found: '' @ host) (s'\<lparr>this := (this s')\<lparr>indexHost := host\<rparr>\<rparr>)
      | (Inl e, s') \<Rightarrow> logger_error ''Failed to get Pinecone index host'' e s')"

subsection \<open>\<^verbatim>\<open>translateToEnglish\<close>\<close>

definition translate_prompt :: "string \<Rightarrow> string" where
  "translate_prompt text =
     ''\<newline>''
   @ ''    You are a professional translator. \<newline>''
   @ ''    Translate the following text to **English**. \<newline>''
   @ ''    If the text is already in English, return it exactly as is.\<newline>''
   @ ''    Do not add any explanations, notes, or extra punctuation. Just the translated text.\<newline>''
   @ ''\<newline>''
   @ ''    Text: ''
   @ text
   @ ''\<newline>''
   @ ''    ''"

definition translateToEnglish :: "env \<Rightarrow> string \<Rightarrow> string io" where
  "translateToEnglish E text = bind (call_invoke E (translate_prompt text)) (\<lambda>res. return (trim res))"

subsection \<open>\<^verbatim>\<open>ask\<close>\<close>

text \<open>The object a call returns: its properties in order. Every value is a string.\<close>

type_synonym js_object = "(string \<times> string) list"

definition NAMESPACE :: string where
  "NAMESPACE = ''lurky-products''"

definition NO_INFO_ANSWER :: string where
  "NO_INFO_ANSWER =
     ''No relevant product information found. (''
   @ [CHR 0xE6, CHR 0x9C, CHR 0xAA, CHR 0xE6, CHR 0x89, CHR 0xBE, CHR 0xE5, CHR 0x88, CHR 0xB0,
      CHR 0xE7, CHR 0x9B, CHR 0xB8, CHR 0xE5, CHR 0x85, CHR 0xB3, CHR 0xE4, CHR 0xBA, CHR 0xA7,
      CHR 0xE5, CHR 0x93, CHR 0x81, CHR 0xE4, CHR 0xBF, CHR 0xA1, CHR 0xE6, CHR 0x81, CHR 0xAF]
   @ '')''"

definition SYSTEM_ERROR_ANSWER :: string where
  "SYSTEM_ERROR_ANSWER =
     [CHR 0xE7, CHR 0xB3, CHR 0xBB, CHR 0xE7, CHR 0xBB, CHR 0x9F, CHR 0xE7, CHR 0xB9, CHR 0x81,
      CHR 0xE5, CHR 0xBF, CHR 0x99, CHR 0xEF, CHR 0xBC, CHR 0x8C, CHR 0xE8, CHR 0xAF, CHR 0xB7,
      CHR 0xE7, CHR 0xA8, CHR 0x8D, CHR 0xE5, CHR 0x90, CHR 0x8E, CHR 0xE5, CHR 0x86, CHR 0x8D,
      CHR 0xE8, CHR 0xAF, CHR 0x95]
   @ '' (System Error).''"

definition CONTEXT_SEPARATOR :: string where
  "CONTEXT_SEPARATOR = ''\<newline>\<newline>---\<newline>\<newline>''"

text \<open>Lines 73 to 76: the host is looked up only while the field is the empty string.\<close>

definition resolve_host :: "env \<Rightarrow> unit io" where
  "resolve_host E s =
     (if indexHost (this s) = []
      then bind (call_describeIndex E)
             (\<lambda>host s'. (Inr (), s'\<lparr>this := (this s')\<lparr>indexHost := host\<rparr>\<rparr>)) s
      else (Inr (), s))"

text \<open>Lines 83 and 84: the two log records.\<close>

definition original_question_record :: "string \<Rightarrow> string" where
  "original_question_record originalQuestion =
     [CHR 0xE5, CHR 0x8E, CHR 0x9F, CHR 0xE5, CHR 0xA7, CHR 0x8B, CHR 0xE9, CHR 0x97, CHR 0xAE,
      CHR 0xE9, CHR 0xA2, CHR 0x98]
     @ '': '' @ [CHR 0x22] @ originalQuestion @ [CHR 0x22]"

definition english_question_record :: "string \<Rightarrow> string" where
  "english_question_record englishQuestion =
     [CHR 0xE7, CHR 0xBF, CHR 0xBB, CHR 0xE8, CHR 0xAF, CHR 0x91, CHR 0xE5, CHR 0x90, CHR 0x8E,
      CHR 0xE7, CHR 0x94, CHR 0xA8, CHR 0xE4, CHR 0xBA, CHR 0x8E, CHR 0xE6, CHR 0xA3, CHR 0x80,
      CHR 0xE7, CHR 0xB4, CHR 0xA2, CHR 0xE7, CHR 0x9A, CHR 0x84, CHR 0xE9, CHR 0x97, CHR 0xAE,
      CHR 0xE9, CHR 0xA2, CHR 0x98]
     @ '': '' @ [CHR 0x22] @ englishQuestion @ [CHR 0x22]"

definition log_questions :: "string \<Rightarrow> string \<Rightarrow> state \<Rightarrow> state" where
  "log_questions originalQuestion englishQuestion s =
     logger_log (english_question_record englishQuestion)
       (logger_log (original_question_record originalQuestion) s)"

definition search_body :: "string \<Rightarrow> json" where
  "search_body englishQuestion =
     JObj [(''query'', JObj [(''inputs'', JObj [(''text'', JStr englishQuestion)]),
                             (''top_k'', JNum ''4'')]),
           (''fields'', JArr [JStr ''id'', JStr ''text''])]"

definition search_request :: "string \<Rightarrow> string \<Rightarrow> string \<Rightarrow> http_request" where
  "search_request host api_key englishQuestion =
     \<lparr>url = ''https://'' @ host @ ''/records/namespaces/'' @ NAMESPACE @ ''/search'',
      http_method = ''POST'',
      headers = [(''Api-Key'', api_key),
                 (''Content-Type'', ''application/json''),
                 (''X-Pinecone-API-Version'', ''2024-10'')],
      body = JSON_stringify (search_body englishQuestion)\<rparr>"

text \<open>Lines 89 to 110: the request, and the throw on a response that is not ok.\<close>

definition search :: "env \<Rightarrow> string \<Rightarrow> http_response io" where
  "search E englishQuestion =
     bind (lift (getOrThrow E ''PINECONE_API_KEY'')) (\<lambda>api_key.
     bind (\<lambda>s. call_fetch E (search_request (indexHost (this s)) api_key englishQuestion) s) (\<lambda>response.
     if \<not> ok response
     then throw (Error (''Pinecone Search Error: '' @ statusText response))
     else return response))"

text \<open>Line 113: \<^verbatim>\<open>searchResult.result?.hits || []\<close>.\<close>

definition hits_of :: "json \<Rightarrow> exn + json" where
  "hits_of searchResult =
     (case get_prop searchResult P_result of
        Inl e \<Rightarrow> Inl e
      | Inr result \<Rightarrow>
          (case js_or (get_prop_opt result P_hits) (Some (JArr [])) of
             Some hits \<Rightarrow> Inr hits
           | None \<Rightarrow> Inr (JArr [])))"

text \<open>
  Line 116: \<^verbatim>\<open>hits.length === 0\<close>. On an object, \<^verbatim>\<open>length\<close> is an own property or
  \<^verbatim>\<open>undefined\<close>; a number or a boolean has none; reading it from \<^verbatim>\<open>null\<close> throws.
\<close>

fun length_is_zero :: "json \<Rightarrow> exn + bool" where
  "length_is_zero JNull =
     Inl (Error (''Cannot read properties of null (reading '' @ [CHR 0x27] @ ''length'' @ [CHR 0x27] @ '')''))"
| "length_is_zero (JArr xs) = Inr (xs = [])"
| "length_is_zero (JStr str) = Inr (str = [])"
| "length_is_zero (JObj kvs) = Inr (map_of kvs ''length'' = Some (JNum ''0''))"
| "length_is_zero v = Inr False"

text \<open>Lines 129 and 130, the callback: \<^verbatim>\<open>hit.fields?.combined_context || JSON.stringify(hit.fields)\<close>.\<close>

definition render_hit :: "json \<Rightarrow> exn + jsval" where
  "render_hit hit =
     (case get_prop hit P_fields of
        Inl e \<Rightarrow> Inl e
      | Inr hit_fields \<Rightarrow>
          Inr (js_or (get_prop_opt hit_fields P_combined_context) (JSON_stringify_val hit_fields)))"

text \<open>\<^verbatim>\<open>hits.map(f)\<close>: only an array has a callable \<^verbatim>\<open>map\<close>.\<close>

fun hits_map :: "(json \<Rightarrow> exn + jsval) \<Rightarrow> json \<Rightarrow> exn + jsval list" where
  "hits_map f (JArr xs) = sequence (map f xs)"
| "hits_map f JNull = Inl (Error (''Cannot read properties of null (reading '' @ [CHR 0x27] @ ''map'' @ [CHR 0x27] @ '')''))"
| "hits_map f v = Inl (Error ''hits.map is not a function'')"

text \<open>Lines 127 to 132.\<close>

definition assemble_context :: "json \<Rightarrow> exn + string" where
  "assemble_context hits =
     (case hits_map render_hit hits of
        Inl e \<Rightarrow> Inl e
      | Inr rendered \<Rightarrow> array_join CONTEXT_SEPARATOR rendered)"

definition final_prompt :: "string \<Rightarrow> string \<Rightarrow> string \<Rightarrow> string" where
  "final_prompt context english_question original_question =
     ''\<newline>''
   @ ''      You are '' @ [CHR 0x22] @ ''Lurky Bot'' @ [CHR 0x22] @ '', the official AI assistant for the Lurky brand.\<newline>''
   @ ''\<newline>''
   @ ''      Task:\<newline>''
   @ ''      Answer the question based strictly on the provided Context.\<newline>''
   @ ''      \<newline>''
   @ ''      CRITICAL INSTRUCTION:\<newline>''
   @ ''      The user asked the question in this language: '' @ [CHR 0x22]
   @ original_question
   @ [CHR 0x22] @ ''.\<newline>''
   @ ''      **You MUST answer in the same language as the '' @ [CHR 0x22]
   @ original_question
   @ [CHR 0x22] @ ''.**\<newline>''
   @ ''      (e.g., if the user asked in Chinese, answer in Chinese. If French, answer in French).\<newline>''
   @ ''\<newline>''
   @ ''      Context Information:\<newline>''
   @ ''      ''
   @ context
   @ ''\<newline>''
   @ ''\<newline>''
   @ ''      English Translated Question (for your understanding):\<newline>''
   @ ''      ''
   @ english_question
   @ '' \<newline>''
   @ ''\<newline>''
   @ ''      Original User Question (Target Language):\<newline>''
   @ ''      ''
   @ original_question
   @ ''\<newline>''
   @ ''      ''"

text \<open>Lines 112 to 173: what is done with a response that is ok.\<close>

definition answer_from :: "env \<Rightarrow> string \<Rightarrow> string \<Rightarrow> http_response \<Rightarrow> js_object io" where
  "answer_from E originalQuestion englishQuestion response =
     bind (lift (json response)) (\<lambda>searchResult.
     bind (lift (hits_of searchResult)) (\<lambda>hits.
     bind (lift (length_is_zero hits)) (\<lambda>no_hits.
     if no_hits
     then return [(''question'', originalQuestion),
                  (''englishQuestion'', englishQuestion),
                  (''answer'', NO_INFO_ANSWER)]
     else
       bind (lift (assemble_context hits)) (\<lambda>context.
       bind (call_invoke E (final_prompt context englishQuestion originalQuestion)) (\<lambda>answer.
       return [(''originalQuestion'', originalQuestion),
               (''englishQuestion'', englishQuestion),
               (''answer'', answer)])))))"

text \<open>Lines 81 to 173: translation, retrieval, answer.\<close>

definition pipeline :: "env \<Rightarrow> string \<Rightarrow> js_object io" where
  "pipeline E originalQuestion =
     bind (translateToEnglish E originalQuestion) (\<lambda>englishQuestion.
     bind (\<lambda>s. (Inr (), log_questions originalQuestion englishQuestion s)) (\<lambda>_.
     bind (search E englishQuestion) (\<lambda>response.
     answer_from E originalQuestion englishQuestion response)))"

text \<open>The body of the \<^verbatim>\<open>try\<close> block, lines 73 to 173.\<close>

definition ask_try :: "env \<Rightarrow> string \<Rightarrow> js_object io" where
  "ask_try E originalQuestion = bind (resolve_host E) (\<lambda>_. pipeline E originalQuestion)"

text \<open>The \<^verbatim>\<open>catch\<close> block, lines 174 to 181. Neither the logger nor reading \<^verbatim>\<open>message\<close> throws.\<close>

definition ask_catch :: "string \<Rightarrow> exn \<Rightarrow> js_object io" where
  "ask_catch originalQuestion error s =
     (Inr [(''question'', originalQuestion),
           (''answer'', SYSTEM_ERROR_ANSWER),
           (''error'', message error)],
      logger_error ''RAG Process Error:'' error s)"

definition ask :: "env \<Rightarrow> string \<Rightarrow> js_object io" where
  "ask E originalQuestion s =
     (case ask_try E originalQuestion s of
        (Inr result, s') \<Rightarrow> (Inr result, s')
      | (Inl error, s') \<Rightarrow> ask_catch originalQuestion error s')"

section \<open>Notions used to state the properties\<close>

text \<open>
  \<open>emits P m\<close>: the computation \<open>m\<close> leaves the fields of the service alone and only appends
  to the trace, every appended event satisfying \<open>P\<close> of the service.
\<close>

definition emits :: "(RagService \<Rightarrow> event \<Rightarrow> bool) \<Rightarrow> 'a io \<Rightarrow> bool" where
  "emits P m =
     (\<forall>s r s'. m s = (r, s') \<longrightarrow>
        this s' = this s \<and> (\<exists>evs. trace s' = trace s @ evs \<and> list_all (P (this s)) evs))"

text \<open>What the pipeline may do once the host is known: no lookup, and only searches of that host.\<close>

fun pipeline_event :: "RagService \<Rightarrow> event \<Rightarrow> bool" where
  "pipeline_event svc (DescribeIndex n) = False"
| "pipeline_event svc (Fetch req) = (\<exists>key eq. req = search_request (indexHost svc) key eq)"
| "pipeline_event svc ev = True"

subsection \<open>Response bodies, fragments and results\<close>

text \<open>
  A response body that lacks the hits: an object with no \<^verbatim>\<open>result\<close>, or whose
  \<^verbatim>\<open>result\<close> is not an object, or is an object with no \<^verbatim>\<open>hits\<close>.
\<close>

definition lacks_hits :: "json \<Rightarrow> bool" where
  "lacks_hits searchResult =
     (case searchResult of
        JObj kvs \<Rightarrow>
          (case map_of kvs ''result'' of
             None \<Rightarrow> True
           | Some (JObj result_kvs) \<Rightarrow> map_of result_kvs ''hits'' = None
           | Some other \<Rightarrow> True)
      | other \<Rightarrow> False)"

text \<open>
  The text of a fragment, as the service reads it: the \<^verbatim>\<open>combined_context\<close> among its fields,
  when that property exists and is a string.
\<close>

definition fragment_text :: "json \<Rightarrow> string option" where
  "fragment_text hit =
     (case get_prop_opt (get_prop_opt (Some hit) P_fields) P_combined_context of
        Some (JStr t) \<Rightarrow> Some t
      | other \<Rightarrow> None)"

text \<open>The dump of a fragment's raw attributes: its fields, serialised.\<close>

definition fields_dump :: "json \<Rightarrow> string" where
  "fields_dump hit =
     (case get_prop_opt (Some hit) P_fields of
        Some hit_fields \<Rightarrow> JSON_stringify hit_fields
      | None \<Rightarrow> [])"

text \<open>The context as claimed: the text of each fragment that has one, the dump for the others.\<close>

definition claimed_piece :: "json \<Rightarrow> string" where
  "claimed_piece hit = (case fragment_text hit of Some t \<Rightarrow> t | None \<Rightarrow> fields_dump hit)"

definition claimed_context :: "json list \<Rightarrow> string" where
  "claimed_context hits = join_strings CONTEXT_SEPARATOR (map claimed_piece hits)"

text \<open>The context as assembled: an empty text counts as no text.\<close>

definition assembled_piece :: "json \<Rightarrow> string" where
  "assembled_piece hit =
     (case fragment_text hit of
        Some t \<Rightarrow> if t = [] then fields_dump hit else t
      | None \<Rightarrow> fields_dump hit)"

definition assembled_context :: "json list \<Rightarrow> string" where
  "assembled_context hits = join_strings CONTEXT_SEPARATOR (map assembled_piece hits)"

text \<open>
  A fragment as the index returns it: an object whose \<^verbatim>\<open>fields\<close> is an object, in which
  \<^verbatim>\<open>combined_context\<close>, if there at all, is a string.
\<close>

definition is_fragment :: "json \<Rightarrow> bool" where
  "is_fragment hit =
     (case hit of
        JObj kvs \<Rightarrow>
          (case map_of kvs ''fields'' of
             Some (JObj field_kvs) \<Rightarrow>
               (case map_of field_kvs ''combined_context'' of
                  None \<Rightarrow> True
                | Some (JStr t) \<Rightarrow> True
                | Some other \<Rightarrow> False)
           | other \<Rightarrow> False)
      | other \<Rightarrow> False)"

text \<open>
  The shape of an answer result as claimed: it carries the original question, whichever of the
  two names the service gives that property, the translated question and an answer.
\<close>

definition carries_original_question :: "string \<Rightarrow> js_object \<Rightarrow> bool" where
  "carries_original_question q res =
     (map_of res ''originalQuestion'' = Some q \<or> map_of res ''question'' = Some q)"

definition AnswerResult_shape :: "string \<Rightarrow> js_object \<Rightarrow> bool" where
  "AnswerResult_shape q res =
     (carries_original_question q res
      \<and> map_of res ''englishQuestion'' \<noteq> None
      \<and> map_of res ''answer'' \<noteq> None)"

subsection \<open>Example collaborators\<close>

text \<open>
  Collaborators that answer every host lookup, every generation call and every fetch with a
  fixed outcome, and the service as constructed from their configuration, before start-up.
\<close>

definition example_env :: "exn + string \<Rightarrow> exn + string \<Rightarrow> exn + http_response \<Rightarrow> env" where
  "example_env host generated response =
     \<lparr>getOrThrow = (\<lambda>k. if k = ''PINECONE_INDEX'' then Inr ''products'' else Inr ''secret''),
      describeIndex = (\<lambda>tr name. host),
      invoke = (\<lambda>tr cfg prompt. generated),
      fetch = (\<lambda>tr req. response)\<rparr>"

definition example_start :: state where
  "example_start =
     \<lparr>this = \<lparr>llm = \<lparr>model = ''gemini-2.5-flash'', temperature = 3 / 10, apiKey = ''secret''\<rparr>,
              pinecone = ''secret'', indexName = ''products'', indexHost = []\<rparr>,
      trace = []\<rparr>"

definition ok_response :: "json \<Rightarrow> http_response" where
  "ok_response b = \<lparr>ok = True, statusText = ''OK'', json = Inr b\<rparr>"

definition not_ok_response :: "string \<Rightarrow> http_response" where
  "not_ok_response status = \<lparr>ok = False, statusText = status, json = Inl (Error ''body not read'')\<rparr>"

section \<open>Auxiliary facts\<close>

lemmas io_defs = bind_def return_def throw_def lift_def

lemmas call_defs = call_describeIndex_def call_invoke_def call_fetch_def logger_log_def logger_error_def

lemmas stage_defs = resolve_host_def translateToEnglish_def log_questions_def search_def answer_from_def
  pipeline_def ask_try_def ask_catch_def ask_def

lemmas example_defs = example_env_def example_start_def ok_response_def

lemma emits_bind:
  assumes "emits P m" and "\<And>a. emits P (f a)"
  shows "emits P (bind m f)"
  unfolding emits_def
proof (intro allI impI)
  fix s r s'
  assume b: "bind m f s = (r, s')"
  obtain r1 s1 where m: "m s = (r1, s1)" by force
  from assms(1) m obtain evs1 where 1: "this s1 = this s" "trace s1 = trace s @ evs1" "list_all (P (this s)) evs1"
    unfolding emits_def by blast
  show "this s' = this s \<and> (\<exists>evs. trace s' = trace s @ evs \<and> list_all (P (this s)) evs)"
  proof (cases r1)
    case (Inl e)
    with b m have "s' = s1" by (simp add: bind_def)
    with 1 show ?thesis by simp
  next
    case (Inr a)
    with b m have "f a s1 = (r, s')" by (simp add: bind_def)
    with assms(2)[of a] obtain evs2 where 2: "this s' = this s1" "trace s' = trace s1 @ evs2" "list_all (P (this s1)) evs2"
      unfolding emits_def by blast
    with 1 show ?thesis by simp
  qed
qed

lemma emits_return: "emits P (return a)"
  by (simp add: emits_def return_def)

lemma emits_throw: "emits P (throw e)"
  by (simp add: emits_def throw_def)

lemma emits_lift: "emits P (lift r)"
  by (simp add: emits_def lift_def)

lemma emits_if: "emits P a \<Longrightarrow> emits P b \<Longrightarrow> emits P (if c then a else b)"
  by simp

lemma emits_invoke: "emits pipeline_event (call_invoke E p)"
  by (simp add: emits_def call_invoke_def)

lemma emits_log: "emits pipeline_event (\<lambda>s. (Inr (), log_questions q eq s))"
  by (simp add: emits_def log_questions_def logger_log_def)

lemma emits_fetch:
  "emits pipeline_event (\<lambda>s. call_fetch E (search_request (indexHost (this s)) key eq) s)"
  by (auto simp add: emits_def call_fetch_def)

lemma emits_translate: "emits pipeline_event (translateToEnglish E q)"
  unfolding translateToEnglish_def
  by (intro emits_bind emits_invoke emits_return)

lemma emits_search: "emits pipeline_event (search E eq)"
  unfolding search_def
  by (intro emits_bind emits_lift emits_fetch emits_if emits_throw emits_return)

lemma emits_answer_from: "emits pipeline_event (answer_from E q eq response)"
  unfolding answer_from_def
  by (intro emits_bind emits_lift emits_if emits_invoke emits_return)

lemma emits_pipeline: "emits pipeline_event (pipeline E q)"
  unfolding pipeline_def
  by (intro emits_bind emits_translate emits_log emits_search emits_answer_from)

lemma resolve_host_cached: "indexHost (this s) \<noteq> [] \<Longrightarrow> resolve_host E s = (Inr (), s)"
  by (simp add: resolve_host_def)

lemma resolve_host_lookup:
  "indexHost (this s) = [] \<Longrightarrow>
   resolve_host E s =
     (case describeIndex E (trace s) (indexName (this s)) of
        Inl e \<Rightarrow> (Inl e, s\<lparr>trace := trace s @ [DescribeIndex (indexName (this s))]\<rparr>)
      | Inr host \<Rightarrow>
          (Inr (), \<lparr>this = (this s)\<lparr>indexHost := host\<rparr>,
                    trace = trace s @ [DescribeIndex (indexName (this s))]\<rparr>))"
  by (simp add: resolve_host_def bind_def call_describeIndex_def split: sum.splits)

lemma resolve_host_trace:
  assumes "resolve_host E s = (r1, s1)"
  shows "trace s1 = trace s @ (if indexHost (this s) = [] then [DescribeIndex (indexName (this s))] else [])"
proof (cases "indexHost (this s) = []")
  case True
  with assms show ?thesis
    by (auto simp add: resolve_host_lookup split: sum.splits)
next
  case False
  with assms show ?thesis
    by (simp add: resolve_host_cached)
qed

lemma ask_after_host:
  assumes "resolve_host E s = (r1, s1)"
  shows "this (snd (ask E q s)) = this s1 \<and>
         (\<exists>evs. trace (snd (ask E q s)) = trace s1 @ evs \<and> list_all (pipeline_event (this s1)) evs)"
proof (cases r1)
  case (Inl e)
  with assms have "ask E q s = ask_catch q e s1"
    by (simp add: ask_def ask_try_def bind_def)
  then show ?thesis
    by (simp add: ask_catch_def logger_error_def)
next
  case (Inr u)
  obtain r2 s2 where p: "pipeline E q s1 = (r2, s2)" by force
  with emits_pipeline[of E q] obtain evs
    where e: "this s2 = this s1" "trace s2 = trace s1 @ evs" "list_all (pipeline_event (this s1)) evs"
    unfolding emits_def by blast
  from assms Inr p have t: "ask_try E q s = (r2, s2)"
    by (simp add: ask_try_def bind_def)
  show ?thesis
  proof (cases r2)
    case (Inl e2)
    with t have "ask E q s = ask_catch q e2 s2" by (simp add: ask_def)
    with e show ?thesis by (simp add: ask_catch_def logger_error_def)
  next
    case (Inr res)
    with t have "ask E q s = (Inr res, s2)" by (simp add: ask_def)
    with e show ?thesis by simp
  qed
qed

lemma trim_hello: "trim ''hello'' = ''hello''"
  by (simp add: trim_def trim_front.simps white_space_def)

lemma ask_caught:
  "ask_try E q s = (Inl e, s1) \<Longrightarrow>
   ask E q s = (Inr [(''question'', q), (''answer'', SYSTEM_ERROR_ANSWER), (''error'', message e)],
                logger_error ''RAG Process Error:'' e s1)"
  by (simp add: ask_def ask_catch_def)

lemma ask_returned: "ask_try E q s = (Inr res, s1) \<Longrightarrow> ask E q s = (Inr res, s1)"
  by (simp add: ask_def)

lemma bind_fails: "fst (m s) = Inl e \<Longrightarrow> fst (bind m f s) = Inl e"
  by (cases "m s") (simp add: bind_def)

lemma ask_try_stages:
  assumes "resolve_host E s = (Inr (), s1)"
      and "translateToEnglish E q s1 = (Inr eq, s2)"
  shows "ask_try E q s = bind (search E eq) (answer_from E q eq) (log_questions q eq s2)"
  using assms by (simp add: ask_try_def pipeline_def bind_def)

lemma search_not_ok:
  assumes "getOrThrow E ''PINECONE_API_KEY'' = Inr key"
      and "fetch E (trace s) (search_request (indexHost (this s)) key eq) = Inr response"
      and "\<not> ok response"
  shows "fst (search E eq s) = Inl (Error (''Pinecone Search Error: '' @ statusText response))"
  using assms by (simp add: search_def io_defs call_fetch_def)

lemma answer_from_empty:
  assumes "json response = Inr searchResult"
      and "hits_of searchResult = Inr hits"
      and "length_is_zero hits = Inr True"
  shows "answer_from E q eq response s =
           (Inr [(''question'', q), (''englishQuestion'', eq), (''answer'', NO_INFO_ANSWER)], s)"
  using assms by (simp add: answer_from_def io_defs)

lemma answer_from_shape:
  assumes "answer_from E q eq response s = (Inr res, s')"
  shows "res = [(''question'', q), (''englishQuestion'', eq), (''answer'', NO_INFO_ANSWER)]
       \<or> (\<exists>a. res = [(''originalQuestion'', q), (''englishQuestion'', eq), (''answer'', a)])"
  using assms
  by (auto simp add: answer_from_def io_defs call_invoke_def split: sum.splits if_splits)

lemma ask_try_shape:
  assumes "ask_try E q s = (Inr res, s')"
  shows "\<exists>s1 eq s2. resolve_host E s = (Inr (), s1) \<and> translateToEnglish E q s1 = (Inr eq, s2)
           \<and> (res = [(''question'', q), (''englishQuestion'', eq), (''answer'', NO_INFO_ANSWER)]
              \<or> (\<exists>a. res = [(''originalQuestion'', q), (''englishQuestion'', eq), (''answer'', a)]))"
proof -
  obtain r1 s1 where 1: "resolve_host E s = (r1, s1)" by force
  with assms obtain u where r1: "r1 = Inr u"
    by (cases r1) (simp_all add: ask_try_def bind_def)
  obtain r2 s2 where 2: "translateToEnglish E q s1 = (r2, s2)" by force
  with assms 1 r1 obtain eq where r2: "r2 = Inr eq"
    by (cases r2) (simp_all add: ask_try_def pipeline_def bind_def)
  from 1 r1 2 r2 have st: "ask_try E q s = bind (search E eq) (answer_from E q eq) (log_questions q eq s2)"
    by (simp add: ask_try_stages)
  obtain r3 s3 where 3: "search E eq (log_questions q eq s2) = (r3, s3)" by force
  with assms st obtain response where r3: "r3 = Inr response"
    by (cases r3) (simp_all add: bind_def)
  from assms st 3 r3 have "answer_from E q eq response s3 = (Inr res, s')"
    by (simp add: bind_def)
  from answer_from_shape[OF this] 1 r1 2 r2 show ?thesis by simp
qed

lemma ask_total: "\<exists>res s'. ask E q s = (Inr res, s')"
proof -
  obtain r s0 where t: "ask_try E q s = (r, s0)" by force
  then show ?thesis
    by (cases r) (simp_all add: ask_caught ask_returned)
qed

lemma ask_answer_present:
  assumes "ask E q s = (Inr res, s')"
  shows "map_of res ''answer'' \<noteq> None"
proof -
  obtain r s0 where t: "ask_try E q s = (r, s0)" by force
  show ?thesis
  proof (cases r)
    case (Inl e)
    with t assms show ?thesis by (auto simp add: ask_caught)
  next
    case (Inr res')
    with t assms have "ask_try E q s = (Inr res, s')" by (simp add: ask_returned)
    from ask_try_shape[OF this] show ?thesis by fastforce
  qed
qed

lemma ask_try_not_ok:
  assumes "resolve_host E s = (Inr (), s1)"
      and "translateToEnglish E q s1 = (Inr eq, s2)"
      and "getOrThrow E ''PINECONE_API_KEY'' = Inr key"
      and "fetch E (trace (log_questions q eq s2)) (search_request (indexHost (this s2)) key eq) = Inr response"
      and "\<not> ok response"
  shows "fst (ask_try E q s) = Inl (Error (''Pinecone Search Error: '' @ statusText response))"
proof -
  have "this (log_questions q eq s2) = this s2"
    by (simp add: log_questions_def logger_log_def)
  with assms(3-5) have "fst (search E eq (log_questions q eq s2))
      = Inl (Error (''Pinecone Search Error: '' @ statusText response))"
    by (intro search_not_ok[where key = key]) simp_all
  then show ?thesis
    by (simp add: ask_try_stages[OF assms(1,2)] bind_fails)
qed

lemma ask_example_empty:
  "ask (example_env (Inr ''h.io'') (Inr ''hello'') (Inr (ok_response (JObj [])))) ''hola'' example_start
   = (Inr [(''question'', ''hola''), (''englishQuestion'', ''hello''), (''answer'', NO_INFO_ANSWER)],
      \<lparr>this = (this example_start)\<lparr>indexHost := ''h.io''\<rparr>,
       trace = [DescribeIndex ''products'',
                Invoke (llm (this example_start)) (translate_prompt ''hola''),
                Log (original_question_record ''hola''),
                Log (english_question_record ''hello''),
                Fetch (search_request ''h.io'' ''secret'' ''hello'')]\<rparr>)"
  by (simp add: io_defs call_defs stage_defs example_defs trim_hello hits_of_def js_or_def)

lemma pipeline_events_no_lookup:
  "list_all (pipeline_event svc) evs \<Longrightarrow> list_all (\<lambda>ev. \<not> is_DescribeIndex ev) evs"
proof (induction evs)
  case Nil
  then show ?case by simp
next
  case (Cons ev evs)
  then show ?case by (cases ev) simp_all
qed

lemma translateToEnglish_effect:
  "translateToEnglish E text s =
     (case invoke E (trace s) (llm (this s)) (translate_prompt text) of
        Inl e \<Rightarrow> Inl e
      | Inr res \<Rightarrow> Inr (trim res),
      s\<lparr>trace := trace s @ [Invoke (llm (this s)) (translate_prompt text)]\<rparr>)"
  by (simp add: translateToEnglish_def io_defs call_invoke_def split: sum.splits)

lemma search_ok_effect:
  assumes "search E eq s = (Inr response, s')"
  shows "\<exists>key. s' = s\<lparr>trace := trace s @ [Fetch (search_request (indexHost (this s)) key eq)]\<rparr>
           \<and> fetch E (trace s) (search_request (indexHost (this s)) key eq) = Inr response
           \<and> ok response"
  using assms
  by (auto simp add: search_def io_defs call_fetch_def split: sum.splits if_splits)

lemma log_questions_effect:
  "log_questions q eq s
     = s\<lparr>trace := trace s @ [Log (original_question_record q), Log (english_question_record eq)]\<rparr>"
  by (simp add: log_questions_def logger_log_def)

lemma ask_empty_path:
  assumes "resolve_host E s = (Inr (), s1)"
      and "translateToEnglish E q s1 = (Inr eq, s2)"
      and "search E eq (log_questions q eq s2) = (Inr response, s3)"
      and "json response = Inr searchResult"
      and "hits_of searchResult = Inr hits"
      and "length_is_zero hits = Inr True"
  shows "ask E q s = (Inr [(''question'', q), (''englishQuestion'', eq), (''answer'', NO_INFO_ANSWER)], s3)"
proof -
  from assms(1-3) have "ask_try E q s = answer_from E q eq response s3"
    by (simp add: ask_try_stages bind_def)
  with assms(4-6) show ?thesis
    by (simp add: answer_from_empty ask_returned)
qed

lemma hits_of_lacking:
  assumes "lacks_hits searchResult"
  shows "hits_of searchResult = Inr (JArr [])"
proof -
  from assms obtain kvs where b: "searchResult = JObj kvs"
    by (cases searchResult) (simp_all add: lacks_hits_def)
  have "get_prop_opt (map_of kvs ''result'') P_hits = None"
  proof (cases "map_of kvs ''result''")
    case None
    then show ?thesis by simp
  next
    case (Some r)
    with assms b show ?thesis
      by (cases r) (simp_all add: lacks_hits_def)
  qed
  with b show ?thesis
    by (simp add: hits_of_def js_or_def)
qed

lemma example_host_resolved:
  "resolve_host (example_env (Inr ''h.io'') g f) example_start
     = (Inr (), \<lparr>this = (this example_start)\<lparr>indexHost := ''h.io''\<rparr>, trace = [DescribeIndex ''products'']\<rparr>)"
  by (simp add: resolve_host_def bind_def call_describeIndex_def example_defs)

lemma example_translated:
  "translateToEnglish (example_env h (Inr ''hello'') f) ''hola'' s
     = (Inr ''hello'', s\<lparr>trace := trace s @ [Invoke (llm (this s)) (translate_prompt ''hola'')]\<rparr>)"
  by (simp add: translateToEnglish_effect example_env_def trim_hello)

lemma example_searched:
  "search (example_env h g (Inr (ok_response b))) eq s
     = (Inr (ok_response b), s\<lparr>trace := trace s @ [Fetch (search_request (indexHost (this s)) ''secret'' eq)]\<rparr>)"
  by (simp add: search_def io_defs call_fetch_def example_env_def ok_response_def)

lemma sequence_map_Inr: "sequence (map (\<lambda>x. Inr (f x)) xs) = Inr (map f xs)"
  by (induction xs) simp_all

lemma sequence_Inr_map: "sequence xs = Inr vs \<Longrightarrow> xs = map Inr vs"
proof (induction xs arbitrary: vs)
  case Nil
  then show ?case by simp
next
  case (Cons x xs)
  then show ?case
    by (auto split: sum.splits)
qed

lemma render_fragment:
  assumes "is_fragment hit"
  shows "render_hit hit = Inr (Some (JStr (assembled_piece hit)))"
proof -
  from assms obtain kvs where h: "hit = JObj kvs"
    by (cases hit) (simp_all add: is_fragment_def)
  with assms obtain fkvs where f: "map_of kvs ''fields'' = Some (JObj fkvs)"
    by (auto simp add: is_fragment_def split: option.splits json.splits)
  show ?thesis
  proof (cases "map_of fkvs ''combined_context''")
    case None
    with h f show ?thesis
      by (simp add: render_hit_def js_or_def assembled_piece_def fragment_text_def fields_dump_def)
  next
    case (Some v)
    with assms h f obtain t where "v = JStr t"
      by (auto simp add: is_fragment_def split: json.splits)
    with Some h f show ?thesis
      by (simp add: render_hit_def js_or_def assembled_piece_def fragment_text_def fields_dump_def)
  qed
qed

lemma render_fragments:
  "list_all is_fragment hits \<Longrightarrow>
   map render_hit hits = map (\<lambda>hit. Inr (Some (JStr (assembled_piece hit)))) hits"
  by (induction hits) (simp_all add: render_fragment)

lemma JSON_stringify_object_not_empty: "JSON_stringify (JObj kvs) \<noteq> []"
  by simp

lemma example_translation_fails:
  "translateToEnglish (example_env h (Inl e) f) text s
     = (Inl e, s\<lparr>trace := trace s @ [Invoke (llm (this s)) (translate_prompt text)]\<rparr>)"
  by (simp add: translateToEnglish_effect example_env_def)

lemma example_json: "json (ok_response b) = Inr b"
  by (simp add: ok_response_def)

lemma example_invoked:
  "call_invoke (example_env h g f) prompt s = (g, s\<lparr>trace := trace s @ [Invoke (llm (this s)) prompt]\<rparr>)"
  by (simp add: call_invoke_def example_env_def)

lemma ask_try_example_generation_fails:
  "fst (ask_try (example_env (Inr ''h.io'') (Inl (Error ''quota exceeded'')) f) ''hola'' example_start)
     = Inl (Error ''quota exceeded'')"
  by (simp add: ask_try_def pipeline_def bind_def example_host_resolved example_translation_fails)

lemma ask_example_generation_fails:
  "fst (ask (example_env (Inr ''h.io'') (Inl (Error ''quota exceeded'')) f) ''hola'' example_start)
     = Inr [(''question'', ''hola''), (''answer'', SYSTEM_ERROR_ANSWER), (''error'', ''quota exceeded'')]"
proof -
  obtain s1 where "ask_try (example_env (Inr ''h.io'') (Inl (Error ''quota exceeded'')) f) ''hola'' example_start
      = (Inl (Error ''quota exceeded''), s1)"
    using ask_try_example_generation_fails[of f]
    by (cases "ask_try (example_env (Inr ''h.io'') (Inl (Error ''quota exceeded'')) f) ''hola'' example_start") simp
  then show ?thesis by (simp add: ask_caught)
qed

lemma ask_try_example_empty:
  "fst (ask_try (example_env (Inr ''h.io'') (Inr ''hello'') (Inr (ok_response (JObj [])))) ''hola'' example_start)
     = Inr [(''question'', ''hola''), (''englishQuestion'', ''hello''), (''answer'', NO_INFO_ANSWER)]"
  by (simp add: ask_try_def pipeline_def bind_def example_host_resolved example_translated example_searched
        answer_from_def lift_def return_def example_json hits_of_def js_or_def)

section \<open>Properties of the service\<close>

subsection \<open>Containment of failures\<close>

text \<open>
  C1. Whatever the question and whatever the collaborators do, \<open>ask\<close> returns a result
  (it never throws) and the result has an \<^verbatim>\<open>answer\<close>. When the body of the \<^verbatim>\<open>try\<close> block
  throws \<open>e\<close>, the result is the degraded one: the fixed system-error answer and
  \<^verbatim>\<open>error\<close> set to the message of \<open>e\<close>. In particular, when the stages before the search
  succeed and the search response is not ok, \<^verbatim>\<open>error\<close> is \<^verbatim>\<open>Pinecone Search Error: \<close>
  followed by the status text of the response.
\<close>

theorem ask_never_throws:
  "\<exists>res s'. ask E q s = (Inr res, s') \<and> map_of res ''answer'' \<noteq> None
     \<and> (\<forall>e s1. ask_try E q s = (Inl e, s1) \<longrightarrow>
           res = [(''question'', q), (''answer'', SYSTEM_ERROR_ANSWER), (''error'', message e)])
     \<and> (\<forall>s1 eq s2 key response.
           resolve_host E s = (Inr (), s1) \<and> translateToEnglish E q s1 = (Inr eq, s2)
           \<and> getOrThrow E ''PINECONE_API_KEY'' = Inr key
           \<and> fetch E (trace (log_questions q eq s2)) (search_request (indexHost (this s2)) key eq) = Inr response
           \<and> \<not> ok response \<longrightarrow>
           res = [(''question'', q), (''answer'', SYSTEM_ERROR_ANSWER),
                  (''error'', ''Pinecone Search Error: '' @ statusText response)])"
proof -
  from ask_total obtain res s' where a: "ask E q s = (Inr res, s')" by blast
  from a have present: "map_of res ''answer'' \<noteq> None" by (rule ask_answer_present)
  have caught: "res = [(''question'', q), (''answer'', SYSTEM_ERROR_ANSWER), (''error'', message e)]"
    if "ask_try E q s = (Inl e, s1)" for e s1
    using that a by (simp add: ask_caught)
  have not_ok: "res = [(''question'', q), (''answer'', SYSTEM_ERROR_ANSWER),
                  (''error'', ''Pinecone Search Error: '' @ statusText response)]"
    if h: "resolve_host E s = (Inr (), s1) \<and> translateToEnglish E q s1 = (Inr eq, s2)
           \<and> getOrThrow E ''PINECONE_API_KEY'' = Inr key
           \<and> fetch E (trace (log_questions q eq s2)) (search_request (indexHost (this s2)) key eq) = Inr response
           \<and> \<not> ok response"
    for s1 eq s2 key response
  proof -
    from h have 1: "resolve_host E s = (Inr (), s1)"
      and 2: "translateToEnglish E q s1 = (Inr eq, s2)"
      and 3: "getOrThrow E ''PINECONE_API_KEY'' = Inr key"
      and 4: "fetch E (trace (log_questions q eq s2)) (search_request (indexHost (this s2)) key eq) = Inr response"
      and 5: "\<not> ok response"
      by simp_all
    from ask_try_not_ok[OF 1 2 3 4 5]
    have "fst (ask_try E q s) = Inl (Error (''Pinecone Search Error: '' @ statusText response))" .
    then obtain s0 where "ask_try E q s = (Inl (Error (''Pinecone Search Error: '' @ statusText response)), s0)"
      by (cases "ask_try E q s") simp
    from caught[OF this] show ?thesis by simp
  qed
  from a present caught not_ok show ?thesis by blast
qed

theorem ask_never_throws_witness:
  "fst (ask (example_env (Inr ''h.io'') (Inr ''hello'') (Inr (not_ok_response ''Bad Request''))) ''hola'' example_start)
     = Inr [(''question'', ''hola''), (''answer'', SYSTEM_ERROR_ANSWER),
            (''error'', ''Pinecone Search Error: Bad Request'')]"
proof -
  let ?E = "example_env (Inr ''h.io'') (Inr ''hello'') (Inr (not_ok_response ''Bad Request''))"
  define s1 where "s1 = snd (resolve_host ?E example_start)"
  define s2 where "s2 = snd (translateToEnglish ?E ''hola'' s1)"
  have 1: "resolve_host ?E example_start = (Inr (), s1)"
    by (simp add: s1_def resolve_host_def bind_def call_describeIndex_def example_defs)
  have 2: "translateToEnglish ?E ''hola'' s1 = (Inr ''hello'', s2)"
    by (simp add: s2_def translateToEnglish_def io_defs call_invoke_def example_env_def trim_hello)
  have 3: "getOrThrow ?E ''PINECONE_API_KEY'' = Inr ''secret''"
    by (simp add: example_env_def)
  have 4: "fetch ?E (trace (log_questions ''hola'' ''hello'' s2))
             (search_request (indexHost (this s2)) ''secret'' ''hello'') = Inr (not_ok_response ''Bad Request'')"
    by (simp add: example_env_def)
  have 5: "\<not> ok (not_ok_response ''Bad Request'')"
    by (simp add: not_ok_response_def)
  from ask_never_throws[of ?E "''hola''" example_start] obtain res s'
    where a: "ask ?E ''hola'' example_start = (Inr res, s')"
      and imp: "\<forall>s1 eq s2 key response.
           resolve_host ?E example_start = (Inr (), s1) \<and> translateToEnglish ?E ''hola'' s1 = (Inr eq, s2)
           \<and> getOrThrow ?E ''PINECONE_API_KEY'' = Inr key
           \<and> fetch ?E (trace (log_questions ''hola'' eq s2)) (search_request (indexHost (this s2)) key eq) = Inr response
           \<and> \<not> ok response \<longrightarrow>
           res = [(''question'', ''hola''), (''answer'', SYSTEM_ERROR_ANSWER),
                  (''error'', ''Pinecone Search Error: '' @ statusText response)]"
    by blast
  from imp 1 2 3 4 5 have "res = [(''question'', ''hola''), (''answer'', SYSTEM_ERROR_ANSWER),
                  (''error'', ''Pinecone Search Error: '' @ statusText (not_ok_response ''Bad Request''))]"
    by blast
  with a show ?thesis by (simp add: not_ok_response_def)
qed

subsection \<open>Empty retrieval\<close>

text \<open>
  C2. When the search comes back ok and the hits read from its body have length zero,
  \<open>ask\<close> returns the fixed bilingual no-information answer, with the original question and
  the translated one and no \<^verbatim>\<open>error\<close> property. Nothing is generated after the translation:
  the only generation request of the whole call is the translation request, made before
  the search.
\<close>

theorem empty_retrieval_short_circuits:
  assumes "resolve_host E s = (Inr (), s1)"
      and "translateToEnglish E q s1 = (Inr eq, s2)"
      and "search E eq (log_questions q eq s2) = (Inr response, s3)"
      and "json response = Inr searchResult"
      and "hits_of searchResult = Inr hits"
      and "length_is_zero hits = Inr True"
  shows "ask E q s = (Inr [(''question'', q), (''englishQuestion'', eq), (''answer'', NO_INFO_ANSWER)], s3)
       \<and> map_of [(''question'', q), (''englishQuestion'', eq), (''answer'', NO_INFO_ANSWER)] ''error'' = None
       \<and> filter is_Invoke (drop (length (trace s2)) (trace (snd (ask E q s)))) = []
       \<and> filter is_Invoke (drop (length (trace s)) (trace (snd (ask E q s))))
           = [Invoke (llm (this s1)) (translate_prompt q)]"
proof -
  have a: "ask E q s = (Inr [(''question'', q), (''englishQuestion'', eq), (''answer'', NO_INFO_ANSWER)], s3)"
    using assms by (rule ask_empty_path)
  from resolve_host_trace[OF assms(1)]
  have t1: "trace s1 = trace s @ (if indexHost (this s) = [] then [DescribeIndex (indexName (this s))] else [])" .
  from assms(2) have t2: "trace s2 = trace s1 @ [Invoke (llm (this s1)) (translate_prompt q)]"
    by (auto simp add: translateToEnglish_effect)
  from search_ok_effect[OF assms(3)] obtain req
    where t3: "trace s3 = trace s2 @ [Log (original_question_record q), Log (english_question_record eq), Fetch req]"
    by (auto simp add: log_questions_effect)
  from a t3 have after: "filter is_Invoke (drop (length (trace s2)) (trace (snd (ask E q s)))) = []"
    by simp
  from a t1 t2 t3 have whole: "filter is_Invoke (drop (length (trace s)) (trace (snd (ask E q s))))
           = [Invoke (llm (this s1)) (translate_prompt q)]"
    by simp
  from a after whole show ?thesis by simp
qed

theorem empty_retrieval_short_circuits_witness:
  "fst (ask (example_env (Inr ''h.io'') (Inr ''hello'')
              (Inr (ok_response (JObj [(''result'', JObj [(''hits'', JArr [])])])))) ''hola'' example_start)
     = Inr [(''question'', ''hola''), (''englishQuestion'', ''hello''), (''answer'', NO_INFO_ANSWER)]
   \<and> filter is_Invoke
         (trace (snd (ask (example_env (Inr ''h.io'') (Inr ''hello'')
              (Inr (ok_response (JObj [(''result'', JObj [(''hits'', JArr [])])])))) ''hola'' example_start)))
     = [Invoke (llm (this example_start)) (translate_prompt ''hola'')]"
proof -
  let ?body = "JObj [(''result'', JObj [(''hits'', JArr [])])]"
  let ?E = "example_env (Inr ''h.io'') (Inr ''hello'') (Inr (ok_response ?body))"
  define s1 where "s1 = \<lparr>this = (this example_start)\<lparr>indexHost := ''h.io''\<rparr>, trace = [DescribeIndex ''products'']\<rparr>"
  define s2 where "s2 = s1\<lparr>trace := trace s1 @ [Invoke (llm (this s1)) (translate_prompt ''hola'')]\<rparr>"
  define s3 where "s3 = (log_questions ''hola'' ''hello'' s2)
      \<lparr>trace := trace (log_questions ''hola'' ''hello'' s2)
         @ [Fetch (search_request (indexHost (this (log_questions ''hola'' ''hello'' s2))) ''secret'' ''hello'')]\<rparr>"
  have 1: "resolve_host ?E example_start = (Inr (), s1)"
    by (simp add: s1_def example_host_resolved)
  have 2: "translateToEnglish ?E ''hola'' s1 = (Inr ''hello'', s2)"
    by (simp add: s2_def example_translated)
  have 3: "search ?E ''hello'' (log_questions ''hola'' ''hello'' s2) = (Inr (ok_response ?body), s3)"
    by (simp add: s3_def example_searched)
  have 4: "json (ok_response ?body) = Inr ?body"
    by (simp add: ok_response_def)
  have 5: "hits_of ?body = Inr (JArr [])"
    by (simp add: hits_of_def js_or_def)
  have 6: "length_is_zero (JArr []) = Inr True"
    by simp
  from empty_retrieval_short_circuits[OF 1 2 3 4 5 6]
  have "ask ?E ''hola'' example_start
          = (Inr [(''question'', ''hola''), (''englishQuestion'', ''hello''), (''answer'', NO_INFO_ANSWER)], s3)"
    and "filter is_Invoke (drop (length (trace example_start)) (trace (snd (ask ?E ''hola'' example_start))))
          = [Invoke (llm (this s1)) (translate_prompt ''hola'')]"
    by blast+
  then show ?thesis
    by (simp add: s1_def example_start_def)
qed

subsection \<open>Context assembly\<close>

text \<open>
  A single fragment whose text is the empty string: read by the presence of the text, its
  context is the empty string; the service assembles the dump of its fields.
\<close>

theorem claimed_context_counterexample:
  "is_fragment (JObj [(''fields'', JObj [(''combined_context'', JStr [])])])
   \<and> claimed_context [JObj [(''fields'', JObj [(''combined_context'', JStr [])])]] = []
   \<and> assemble_context (JArr [JObj [(''fields'', JObj [(''combined_context'', JStr [])])]])
       = Inr (''{'' @ [CHR 0x22] @ ''combined_context'' @ [CHR 0x22] @ '':'' @ [CHR 0x22, CHR 0x22] @ ''}'')
   \<and> assemble_context (JArr [JObj [(''fields'', JObj [(''combined_context'', JStr [])])]])
       \<noteq> Inr (claimed_context [JObj [(''fields'', JObj [(''combined_context'', JStr [])])]])"
proof -
  have a: "is_fragment (JObj [(''fields'', JObj [(''combined_context'', JStr [])])])"
    by (simp add: is_fragment_def)
  have b: "claimed_context [JObj [(''fields'', JObj [(''combined_context'', JStr [])])]] = []"
    by (simp add: claimed_context_def claimed_piece_def fragment_text_def)
  have c: "assemble_context (JArr [JObj [(''fields'', JObj [(''combined_context'', JStr [])])]])
       = Inr (''{'' @ [CHR 0x22] @ ''combined_context'' @ [CHR 0x22] @ '':'' @ [CHR 0x22, CHR 0x22] @ ''}'')"
    by (simp add: assemble_context_def render_hit_def js_or_def array_join_def quote_def quote_char_def CONTEXT_SEPARATOR_def)
  from a b c show ?thesis by simp
qed

text \<open>
  C3, amended. For fragments as the index returns them, the context is the pieces of the
  fragments in retrieval order, one piece for each fragment, joined with the separator:
  nothing is dropped, reordered or merged. The piece of a fragment is its text when the text
  is there and not empty, and the JSON dump of its fields otherwise. As stated, with the dump
  only for a fragment that lacks the text, the claim fails on a fragment whose text is the
  empty string, as the evaluation above shows.
\<close>

theorem context_assembled_in_order:
  assumes "list_all is_fragment hits"
  shows "\<exists>rendered. hits_map render_hit (JArr hits) = Inr rendered
           \<and> length rendered = length hits
           \<and> array_join CONTEXT_SEPARATOR rendered = Inr (assembled_context hits)
           \<and> assemble_context (JArr hits) = Inr (assembled_context hits)"
proof -
  let ?rendered = "map (\<lambda>hit. Some (JStr (assembled_piece hit))) hits"
  from assms have r: "hits_map render_hit (JArr hits) = Inr ?rendered"
    by (simp add: render_fragments sequence_map_Inr)
  have "map elem_string ?rendered = map (\<lambda>hit. Inr (assembled_piece hit)) hits"
    by simp
  then have j: "array_join CONTEXT_SEPARATOR ?rendered = Inr (assembled_context hits)"
    by (simp only: array_join_def sequence_map_Inr assembled_context_def sum.case)
  with r have "assemble_context (JArr hits) = Inr (assembled_context hits)"
    by (simp add: assemble_context_def)
  with r j show ?thesis
    by (intro exI[of _ ?rendered]) simp
qed

theorem context_assembled_in_order_witness:
  "list_all is_fragment
     [JObj [(''fields'', JObj [(''combined_context'', JStr ''abc'')])],
      JObj [(''fields'', JObj [(''combined_context'', JStr [])])]]
   \<and> assemble_context
        (JArr [JObj [(''fields'', JObj [(''combined_context'', JStr ''abc'')])],
               JObj [(''fields'', JObj [(''combined_context'', JStr [])])]])
       = Inr (''abc'' @ CONTEXT_SEPARATOR
              @ ''{'' @ [CHR 0x22] @ ''combined_context'' @ [CHR 0x22] @ '':'' @ [CHR 0x22, CHR 0x22] @ ''}'')"
proof -
  let ?hits = "[JObj [(''fields'', JObj [(''combined_context'', JStr ''abc'')])],
                JObj [(''fields'', JObj [(''combined_context'', JStr [])])]]"
  have h: "list_all is_fragment ?hits"
    by (simp add: is_fragment_def)
  from context_assembled_in_order[OF h]
  have "assemble_context (JArr ?hits) = Inr (assembled_context ?hits)"
    by blast
  moreover have "assembled_context ?hits
      = ''abc'' @ CONTEXT_SEPARATOR
              @ ''{'' @ [CHR 0x22] @ ''combined_context'' @ [CHR 0x22] @ '':'' @ [CHR 0x22, CHR 0x22] @ ''}''"
    by (simp add: assembled_context_def assembled_piece_def fragment_text_def fields_dump_def quote_def quote_char_def)
  ultimately show ?thesis using h by simp
qed

subsection \<open>Failure of the translation\<close>

text \<open>
  A generation service that is out of quota: the translation of \<^verbatim>\<open>hola\<close> throws, it does not
  return \<^verbatim>\<open>hola\<close>.
\<close>

theorem normalize_fails_closed_counterexample:
  "fst (translateToEnglish (example_env (Inr ''h.io'') (Inl (Error ''quota exceeded'')) (Inr (ok_response (JObj []))))
          ''hola'' example_start)
     = Inl (Error ''quota exceeded'')
   \<and> fst (translateToEnglish (example_env (Inr ''h.io'') (Inl (Error ''quota exceeded'')) (Inr (ok_response (JObj []))))
          ''hola'' example_start)
     \<noteq> Inr ''hola''"
  by (simp add: translateToEnglish_effect example_env_def)

text \<open>
  C4, amended. When the generation call made by \<open>translateToEnglish\<close> throws,
  \<open>translateToEnglish\<close> throws the same error after that single call: the input is not
  returned in its place. Inside \<open>ask\<close> the error is caught and the degraded result returned,
  with \<^verbatim>\<open>error\<close> set to its message. The claim as stated fails, as the evaluation above
  shows.
\<close>

theorem translation_failure_propagates:
  assumes "invoke E (trace s) (llm (this s)) (translate_prompt text) = Inl e"
  shows "translateToEnglish E text s
           = (Inl e, s\<lparr>trace := trace s @ [Invoke (llm (this s)) (translate_prompt text)]\<rparr>)
       \<and> (\<forall>s0. resolve_host E s0 = (Inr (), s) \<longrightarrow>
             ask E text s0
               = (Inr [(''question'', text), (''answer'', SYSTEM_ERROR_ANSWER), (''error'', message e)],
                  logger_error ''RAG Process Error:'' e
                    (s\<lparr>trace := trace s @ [Invoke (llm (this s)) (translate_prompt text)]\<rparr>)))"
proof -
  from assms have t: "translateToEnglish E text s
           = (Inl e, s\<lparr>trace := trace s @ [Invoke (llm (this s)) (translate_prompt text)]\<rparr>)"
    by (simp add: translateToEnglish_effect)
  have "ask E text s0
               = (Inr [(''question'', text), (''answer'', SYSTEM_ERROR_ANSWER), (''error'', message e)],
                  logger_error ''RAG Process Error:'' e
                    (s\<lparr>trace := trace s @ [Invoke (llm (this s)) (translate_prompt text)]\<rparr>))"
    if "resolve_host E s0 = (Inr (), s)" for s0
  proof -
    from that t have "ask_try E text s0
        = (Inl e, s\<lparr>trace := trace s @ [Invoke (llm (this s)) (translate_prompt text)]\<rparr>)"
      by (simp add: ask_try_def pipeline_def bind_def)
    then show ?thesis by (rule ask_caught)
  qed
  with t show ?thesis by blast
qed

theorem translation_failure_propagates_witness:
  "fst (ask (example_env (Inr ''h.io'') (Inl (Error ''quota exceeded'')) (Inr (ok_response (JObj []))))
          ''hola'' example_start)
     = Inr [(''question'', ''hola''), (''answer'', SYSTEM_ERROR_ANSWER), (''error'', ''quota exceeded'')]"
proof -
  let ?E = "example_env (Inr ''h.io'') (Inl (Error ''quota exceeded'')) (Inr (ok_response (JObj [])))"
  define s1 where "s1 = \<lparr>this = (this example_start)\<lparr>indexHost := ''h.io''\<rparr>, trace = [DescribeIndex ''products'']\<rparr>"
  have 1: "resolve_host ?E example_start = (Inr (), s1)"
    by (simp add: s1_def example_host_resolved)
  have 2: "invoke ?E (trace s1) (llm (this s1)) (translate_prompt ''hola'') = Inl (Error ''quota exceeded'')"
    by (simp add: example_env_def)
  from translation_failure_propagates[OF 2] 1
  have "ask ?E ''hola'' example_start
               = (Inr [(''question'', ''hola''), (''answer'', SYSTEM_ERROR_ANSWER),
                       (''error'', message (Error ''quota exceeded''))],
                  logger_error ''RAG Process Error:'' (Error ''quota exceeded'')
                    (s1\<lparr>trace := trace s1 @ [Invoke (llm (this s1)) (translate_prompt ''hola'')]\<rparr>))"
    by blast
  then show ?thesis by simp
qed

subsection \<open>Shape of the result\<close>

text \<open>
  The same failing generation service, seen from \<open>ask\<close>: the result has the question, the
  answer and the error, and no translated question.
\<close>

theorem answer_result_shape_counterexample:
  "fst (ask (example_env (Inr ''h.io'') (Inl (Error ''quota exceeded'')) (Inr (ok_response (JObj []))))
          ''hola'' example_start)
     = Inr [(''question'', ''hola''), (''answer'', SYSTEM_ERROR_ANSWER), (''error'', ''quota exceeded'')]
   \<and> \<not> AnswerResult_shape ''hola''
         [(''question'', ''hola''), (''answer'', SYSTEM_ERROR_ANSWER), (''error'', ''quota exceeded'')]"
  by (simp add: ask_example_generation_fails AnswerResult_shape_def)

text \<open>
  C5, amended. Every call of \<open>ask\<close> returns a result that carries the original question
  and an answer. When the \<^verbatim>\<open>try\<close> block throws, the result has an \<^verbatim>\<open>error\<close> and no
  translated question; when it does not throw (an answer was generated, or nothing was
  retrieved), the result has no \<^verbatim>\<open>error\<close> and carries the translated question. The claim
  as stated, with the translated question on the failure path too, fails, as the evaluation
  above shows.
\<close>

theorem answer_result_shape:
  "\<exists>res s'. ask E q s = (Inr res, s')
     \<and> carries_original_question q res
     \<and> map_of res ''answer'' \<noteq> None
     \<and> ((\<exists>e s1. ask_try E q s = (Inl e, s1))
          \<longrightarrow> map_of res ''error'' \<noteq> None \<and> map_of res ''englishQuestion'' = None)
     \<and> ((\<exists>r s1. ask_try E q s = (Inr r, s1))
          \<longrightarrow> map_of res ''error'' = None
            \<and> (\<exists>s1 eq s2. resolve_host E s = (Inr (), s1) \<and> translateToEnglish E q s1 = (Inr eq, s2)
                  \<and> map_of res ''englishQuestion'' = Some eq))"
proof -
  obtain r s0 where t: "ask_try E q s = (r, s0)" by force
  show ?thesis
  proof (cases r)
    case (Inl e)
    with t have "ask E q s = (Inr [(''question'', q), (''answer'', SYSTEM_ERROR_ANSWER), (''error'', message e)],
                logger_error ''RAG Process Error:'' e s0)"
      by (simp add: ask_caught)
    with t Inl show ?thesis
      by (simp add: carries_original_question_def)
  next
    case (Inr res)
    with t have a: "ask E q s = (Inr res, s0)" by (simp add: ask_returned)
    from t Inr have "ask_try E q s = (Inr res, s0)" by simp
    from ask_try_shape[OF this] obtain s1 eq s2
      where 1: "resolve_host E s = (Inr (), s1)"
        and 2: "translateToEnglish E q s1 = (Inr eq, s2)"
        and 3: "res = [(''question'', q), (''englishQuestion'', eq), (''answer'', NO_INFO_ANSWER)]
              \<or> (\<exists>a. res = [(''originalQuestion'', q), (''englishQuestion'', eq), (''answer'', a)])"
      by blast
    from 3 have c: "carries_original_question q res"
      and p: "map_of res ''answer'' \<noteq> None"
      and n: "map_of res ''error'' = None"
      and q: "map_of res ''englishQuestion'' = Some eq"
      by (auto simp add: carries_original_question_def)
    from 1 2 q have "\<exists>s1 eq s2. resolve_host E s = (Inr (), s1) \<and> translateToEnglish E q s1 = (Inr eq, s2)
                  \<and> map_of res ''englishQuestion'' = Some eq"
      by blast
    with a t Inr c p n show ?thesis by simp
  qed
qed

theorem answer_result_shape_witness:
  "(\<exists>res. fst (ask (example_env (Inr ''h.io'') (Inl (Error ''quota exceeded'')) (Inr (ok_response (JObj []))))
                 ''hola'' example_start) = Inr res
          \<and> map_of res ''error'' \<noteq> None \<and> map_of res ''englishQuestion'' = None)
   \<and> (\<exists>res. fst (ask (example_env (Inr ''h.io'') (Inr ''hello'') (Inr (ok_response (JObj []))))
                 ''hola'' example_start) = Inr res
          \<and> map_of res ''error'' = None \<and> map_of res ''englishQuestion'' \<noteq> None)"
proof -
  let ?F = "example_env (Inr ''h.io'') (Inl (Error ''quota exceeded'')) (Inr (ok_response (JObj [])))"
  let ?G = "example_env (Inr ''h.io'') (Inr ''hello'') (Inr (ok_response (JObj [])))"
  have f: "\<exists>e s1. ask_try ?F ''hola'' example_start = (Inl e, s1)"
    using ask_try_example_generation_fails[of "Inr (ok_response (JObj []))"]
    by (cases "ask_try ?F ''hola'' example_start") simp
  have g: "\<exists>r s1. ask_try ?G ''hola'' example_start = (Inr r, s1)"
    using ask_try_example_empty
    by (cases "ask_try ?G ''hola'' example_start") simp
  from answer_result_shape[of ?F "''hola''" example_start] f
  have a: "\<exists>res. fst (ask ?F ''hola'' example_start) = Inr res
          \<and> map_of res ''error'' \<noteq> None \<and> map_of res ''englishQuestion'' = None"
    by fastforce
  from answer_result_shape[of ?G "''hola''" example_start] g
  have b: "\<exists>res. fst (ask ?G ''hola'' example_start) = Inr res
          \<and> map_of res ''error'' = None \<and> map_of res ''englishQuestion'' \<noteq> None"
    by fastforce
  from a b show ?thesis by blast
qed

subsection \<open>Temperature of the translation request\<close>

text \<open>
  C6. The service is constructed with one chat model, at temperature 0.3, and both the
  translation request and the answer request are issued with that model: the translation
  is not requested at temperature 0, although the comment on \<^verbatim>\<open>translateToEnglish\<close>
  says it is.
\<close>

theorem translation_uses_answer_temperature:
  "RagService_constructor
     (example_env (Inr ''h.io'') (Inr ''hello'')
        (Inr (ok_response (JObj [(''result'', JObj [(''hits'',
           JArr [JObj [(''fields'', JObj [(''combined_context'', JStr ''abc'')])]])])]))))
     = Inr (this example_start)
   \<and> filter is_Invoke
       (trace (snd (ask
          (example_env (Inr ''h.io'') (Inr ''hello'')
             (Inr (ok_response (JObj [(''result'', JObj [(''hits'',
                JArr [JObj [(''fields'', JObj [(''combined_context'', JStr ''abc'')])]])])]))))
          ''hola'' example_start)))
     = [Invoke \<lparr>model = ''gemini-2.5-flash'', temperature = 3 / 10, apiKey = ''secret''\<rparr>
          (translate_prompt ''hola''),
        Invoke \<lparr>model = ''gemini-2.5-flash'', temperature = 3 / 10, apiKey = ''secret''\<rparr>
          (final_prompt ''abc'' ''hello'' ''hola'')]
   \<and> temperature \<lparr>model = ''gemini-2.5-flash'', temperature = 3 / 10, apiKey = ''secret''\<rparr> \<noteq> 0"
proof -
  let ?body = "JObj [(''result'', JObj [(''hits'',
           JArr [JObj [(''fields'', JObj [(''combined_context'', JStr ''abc'')])]])])]"
  let ?E = "example_env (Inr ''h.io'') (Inr ''hello'') (Inr (ok_response ?body))"
  have c: "RagService_constructor ?E = Inr (this example_start)"
    by (simp add: RagService_constructor_def example_defs)
  have h: "hits_of ?body = Inr (JArr [JObj [(''fields'', JObj [(''combined_context'', JStr ''abc'')])]])"
    by (simp add: hits_of_def js_or_def)
  have x: "assemble_context (JArr [JObj [(''fields'', JObj [(''combined_context'', JStr ''abc'')])]]) = Inr ''abc''"
    by (simp add: assemble_context_def render_hit_def js_or_def array_join_def)
  have "snd (ask_try ?E ''hola'' example_start)
      = \<lparr>this = (this example_start)\<lparr>indexHost := ''h.io''\<rparr>,
         trace = [DescribeIndex ''products'',
                  Invoke (llm (this example_start)) (translate_prompt ''hola''),
                  Log (original_question_record ''hola''),
                  Log (english_question_record ''hello''),
                  Fetch (search_request ''h.io'' ''secret'' ''hello''),
                  Invoke (llm (this example_start)) (final_prompt ''abc'' ''hello'' ''hola'')]\<rparr>
      \<and> fst (ask_try ?E ''hola'' example_start)
          = Inr [(''originalQuestion'', ''hola''), (''englishQuestion'', ''hello''), (''answer'', ''hello'')]"
    by (simp add: ask_try_def pipeline_def bind_def example_host_resolved example_translated example_searched
        log_questions_effect answer_from_def lift_def return_def example_json h x example_invoked)
  then have "ask ?E ''hola'' example_start
      = (Inr [(''originalQuestion'', ''hola''), (''englishQuestion'', ''hello''), (''answer'', ''hello'')],
        \<lparr>this = (this example_start)\<lparr>indexHost := ''h.io''\<rparr>,
         trace = [DescribeIndex ''products'',
                  Invoke (llm (this example_start)) (translate_prompt ''hola''),
                  Log (original_question_record ''hola''),
                  Log (english_question_record ''hello''),
                  Fetch (search_request ''h.io'' ''secret'' ''hello''),
                  Invoke (llm (this example_start)) (final_prompt ''abc'' ''hello'' ''hola'')]\<rparr>)"
    by (cases "ask_try ?E ''hola'' example_start") (simp add: ask_returned)
  then have "filter is_Invoke (trace (snd (ask ?E ''hola'' example_start)))
     = [Invoke (llm (this example_start)) (translate_prompt ''hola''),
        Invoke (llm (this example_start)) (final_prompt ''abc'' ''hello'' ''hola'')]"
    by simp
  with c show ?thesis
    by (simp add: example_start_def)
qed

subsection \<open>The search request\<close>

text \<open>
  C7. Every search request that a call of \<open>ask\<close> issues goes to the \<^verbatim>\<open>lurky-products\<close>
  namespace of the index host, asks for \<^verbatim>\<open>top_k\<close> 4 and for the fields \<^verbatim>\<open>id\<close> and
  \<^verbatim>\<open>text\<close> only.
\<close>

theorem search_request_scoped:
  assumes "Fetch req \<in> set (drop (length (trace s)) (trace (snd (ask E q s))))"
  shows "\<exists>key eq.
           url req = ''https://'' @ indexHost (this (snd (ask E q s))) @ ''/records/namespaces/lurky-products/search''
         \<and> http_method req = ''POST''
         \<and> headers req = [(''Api-Key'', key), (''Content-Type'', ''application/json''),
                           (''X-Pinecone-API-Version'', ''2024-10'')]
         \<and> body req =
             JSON_stringify
               (JObj [(''query'', JObj [(''inputs'', JObj [(''text'', JStr eq)]), (''top_k'', JNum ''4'')]),
                      (''fields'', JArr [JStr ''id'', JStr ''text''])])"
proof -
  obtain r1 s1 where r: "resolve_host E s = (r1, s1)" by force
  from resolve_host_trace[OF r]
  have t1: "trace s1 = trace s @ (if indexHost (this s) = [] then [DescribeIndex (indexName (this s))] else [])" .
  from ask_after_host[OF r, of q] obtain evs
    where a: "this (snd (ask E q s)) = this s1"
      and b: "trace (snd (ask E q s)) = trace s1 @ evs"
      and c: "list_all (pipeline_event (this s1)) evs"
    by blast
  from assms t1 b have "Fetch req \<in> set evs"
    by (auto split: if_splits)
  with c have "pipeline_event (this s1) (Fetch req)"
    unfolding list_all_iff by blast
  then obtain key eq where "req = search_request (indexHost (this s1)) key eq"
    by auto
  with a have
    "url req = ''https://'' @ indexHost (this (snd (ask E q s))) @ ''/records/namespaces/lurky-products/search''
   \<and> http_method req = ''POST''
   \<and> headers req = [(''Api-Key'', key), (''Content-Type'', ''application/json''),
                     (''X-Pinecone-API-Version'', ''2024-10'')]
   \<and> body req =
       JSON_stringify
         (JObj [(''query'', JObj [(''inputs'', JObj [(''text'', JStr eq)]), (''top_k'', JNum ''4'')]),
                (''fields'', JArr [JStr ''id'', JStr ''text''])])"
    by (simp add: search_request_def search_body_def NAMESPACE_def)
  then show ?thesis by blast
qed

theorem search_request_scoped_witness:
  "Fetch (search_request ''h.io'' ''secret'' ''hello'')
     \<in> set (drop (length (trace example_start))
          (trace (snd (ask (example_env (Inr ''h.io'') (Inr ''hello'') (Inr (ok_response (JObj [])))) ''hola'' example_start))))
   \<and> url (search_request ''h.io'' ''secret'' ''hello'') = ''https://h.io/records/namespaces/lurky-products/search''"
proof -
  let ?E = "example_env (Inr ''h.io'') (Inr ''hello'') (Inr (ok_response (JObj [])))"
  have h: "Fetch (search_request ''h.io'' ''secret'' ''hello'')
     \<in> set (drop (length (trace example_start)) (trace (snd (ask ?E ''hola'' example_start))))"
    by (simp add: ask_example_empty) (simp add: example_start_def)
  from search_request_scoped[OF h] obtain key eq
    where "url (search_request ''h.io'' ''secret'' ''hello'')
        = ''https://'' @ indexHost (this (snd (ask ?E ''hola'' example_start))) @ ''/records/namespaces/lurky-products/search''"
    by blast
  then have "url (search_request ''h.io'' ''secret'' ''hello'') = ''https://h.io/records/namespaces/lurky-products/search''"
    by (simp add: ask_example_empty)
  with h show ?thesis by simp
qed

subsection \<open>The index host\<close>

text \<open>
  C8. The index host is looked up only while the field is empty. A call of \<open>ask\<close> that
  finds a host keeps it and issues no lookup; a call that finds none issues exactly one
  lookup, first, and keeps what the lookup returns. A failed lookup at start-up is logged and
  changes no field, so with no host yet the next call of \<open>ask\<close> looks it up again.
\<close>

theorem index_host_memoized:
  "(indexHost (this s) \<noteq> [] \<longrightarrow>
      indexHost (this (snd (ask E q s))) = indexHost (this s)
    \<and> list_all (\<lambda>ev. \<not> is_DescribeIndex ev) (drop (length (trace s)) (trace (snd (ask E q s)))))
 \<and> (indexHost (this s) = [] \<longrightarrow>
      (\<exists>evs. trace (snd (ask E q s)) = trace s @ DescribeIndex (indexName (this s)) # evs
             \<and> list_all (\<lambda>ev. \<not> is_DescribeIndex ev) evs)
    \<and> (\<forall>host. describeIndex E (trace s) (indexName (this s)) = Inr host
           \<longrightarrow> indexHost (this (snd (ask E q s))) = host)
    \<and> (\<forall>e. describeIndex E (trace s) (indexName (this s)) = Inl e
           \<longrightarrow> indexHost (this (snd (ask E q s))) = []))
 \<and> (\<forall>e. describeIndex E (trace s) (indexName (this s)) = Inl e \<longrightarrow>
      onModuleInit E s
        = s\<lparr>trace := trace s @ [DescribeIndex (indexName (this s)),
                                 LogError ''Failed to get Pinecone index host'' e]\<rparr>
    \<and> (indexHost (this s) = [] \<longrightarrow>
         (\<exists>evs. trace (snd (ask E q (onModuleInit E s)))
                  = trace (onModuleInit E s) @ DescribeIndex (indexName (this s)) # evs)))"
proof -
  have lookup: "(\<exists>evs. trace (snd (ask E q t)) = trace t @ DescribeIndex (indexName (this t)) # evs
             \<and> list_all (\<lambda>ev. \<not> is_DescribeIndex ev) evs)
    \<and> (\<forall>host. describeIndex E (trace t) (indexName (this t)) = Inr host
           \<longrightarrow> indexHost (this (snd (ask E q t))) = host)
    \<and> (\<forall>e. describeIndex E (trace t) (indexName (this t)) = Inl e
           \<longrightarrow> indexHost (this (snd (ask E q t))) = [])"
    if empty: "indexHost (this t) = []" for t
  proof -
    obtain r1 s1 where r: "resolve_host E t = (r1, s1)" by force
    from ask_after_host[OF r, of q] obtain evs
      where a: "this (snd (ask E q t)) = this s1"
        and b: "trace (snd (ask E q t)) = trace s1 @ evs"
        and c: "list_all (pipeline_event (this s1)) evs"
      by blast
    from resolve_host_trace[OF r] empty
    have t1: "trace s1 = trace t @ [DescribeIndex (indexName (this t))]" by simp
    from r empty have h1: "describeIndex E (trace t) (indexName (this t)) = Inr host
        \<Longrightarrow> indexHost (this s1) = host" for host
      by (auto simp add: resolve_host_lookup)
    from r empty have h2: "describeIndex E (trace t) (indexName (this t)) = Inl e
        \<Longrightarrow> indexHost (this s1) = []" for e
      by (auto simp add: resolve_host_lookup)
    from b t1 pipeline_events_no_lookup[OF c]
    have "\<exists>evs. trace (snd (ask E q t)) = trace t @ DescribeIndex (indexName (this t)) # evs
             \<and> list_all (\<lambda>ev. \<not> is_DescribeIndex ev) evs"
      by simp
    with a h1 h2 show ?thesis by simp
  qed
  have cached: "indexHost (this (snd (ask E q s))) = indexHost (this s)
    \<and> list_all (\<lambda>ev. \<not> is_DescribeIndex ev) (drop (length (trace s)) (trace (snd (ask E q s))))"
    if full: "indexHost (this s) \<noteq> []"
  proof -
    from full have r: "resolve_host E s = (Inr (), s)" by (rule resolve_host_cached)
    from ask_after_host[OF r, of q] obtain evs
      where a: "this (snd (ask E q s)) = this s"
        and b: "trace (snd (ask E q s)) = trace s @ evs"
        and c: "list_all (pipeline_event (this s)) evs"
      by blast
    from a b pipeline_events_no_lookup[OF c] show ?thesis by simp
  qed
  have init: "onModuleInit E s
        = s\<lparr>trace := trace s @ [DescribeIndex (indexName (this s)),
                                 LogError ''Failed to get Pinecone index host'' e]\<rparr>"
    if "describeIndex E (trace s) (indexName (this s)) = Inl e" for e
    using that by (simp add: onModuleInit_def call_describeIndex_def logger_error_def)
  have retry: "\<exists>evs. trace (snd (ask E q (onModuleInit E s)))
                  = trace (onModuleInit E s) @ DescribeIndex (indexName (this s)) # evs"
    if f: "describeIndex E (trace s) (indexName (this s)) = Inl e" and e: "indexHost (this s) = []" for e
  proof -
    from init[OF f] e have "indexHost (this (onModuleInit E s)) = []"
      and n: "indexName (this (onModuleInit E s)) = indexName (this s)"
      by simp_all
    from lookup[OF this(1)] n show ?thesis by auto
  qed
  from lookup cached init retry show ?thesis by blast
qed

theorem index_host_memoized_witness:
  "indexHost (this (snd (ask (example_env (Inr ''other.io'') (Inr ''hello'') (Inr (ok_response (JObj [])))) ''hola''
       (example_start\<lparr>this := (this example_start)\<lparr>indexHost := ''h.io''\<rparr>\<rparr>)))) = ''h.io''
   \<and> indexHost (this (snd (ask (example_env (Inr ''h.io'') (Inr ''hello'') (Inr (ok_response (JObj [])))) ''hola''
         example_start))) = ''h.io''
   \<and> onModuleInit (example_env (Inl (Error ''unreachable'')) (Inr ''hello'') (Inr (ok_response (JObj [])))) example_start
       = example_start\<lparr>trace := [DescribeIndex ''products'',
                                    LogError ''Failed to get Pinecone index host'' (Error ''unreachable'')]\<rparr>"
proof -
  let ?known = "example_start\<lparr>this := (this example_start)\<lparr>indexHost := ''h.io''\<rparr>\<rparr>"
  let ?E1 = "example_env (Inr ''other.io'') (Inr ''hello'') (Inr (ok_response (JObj [])))"
  let ?E2 = "example_env (Inr ''h.io'') (Inr ''hello'') (Inr (ok_response (JObj [])))"
  let ?E3 = "example_env (Inl (Error ''unreachable'')) (Inr ''hello'') (Inr (ok_response (JObj [])))"
  have k: "indexHost (this ?known) \<noteq> []" by simp
  with index_host_memoized[of ?known ?E1 "''hola''"]
  have a: "indexHost (this (snd (ask ?E1 ''hola'' ?known))) = ''h.io''"
    by simp
  have e: "indexHost (this example_start) = []"
    by (simp add: example_start_def)
  have d: "describeIndex ?E2 (trace example_start) (indexName (this example_start)) = Inr ''h.io''"
    by (simp add: example_env_def)
  from index_host_memoized[of example_start ?E2 "''hola''"] e d
  have b: "indexHost (this (snd (ask ?E2 ''hola'' example_start))) = ''h.io''"
    by blast
  have f: "describeIndex ?E3 (trace example_start) (indexName (this example_start)) = Inl (Error ''unreachable'')"
    by (simp add: example_env_def)
  from index_host_memoized[of example_start ?E3 "''hola''"] f
  have "onModuleInit ?E3 example_start
        = example_start\<lparr>trace := trace example_start @ [DescribeIndex (indexName (this example_start)),
                                 LogError ''Failed to get Pinecone index host'' (Error ''unreachable'')]\<rparr>"
    by blast
  then have c: "onModuleInit ?E3 example_start
       = example_start\<lparr>trace := [DescribeIndex ''products'',
                                    LogError ''Failed to get Pinecone index host'' (Error ''unreachable'')]\<rparr>"
    by (simp add: example_start_def)
  from a b c show ?thesis by simp
qed

subsection \<open>Falsy text\<close>

text \<open>
  C9. A fragment whose fields hold a \<^verbatim>\<open>combined_context\<close> that is falsy (the empty string,
  \<^verbatim>\<open>null\<close>, \<^verbatim>\<open>false\<close>, zero) is rendered as the JSON dump of all its fields, which is never
  the empty string; so is its entry among the rendered fragments, wherever it stands in the
  list, and so is the context of that fragment alone.
\<close>

theorem falsy_text_rendered_as_dump:
  assumes "map_of hit_kvs ''fields'' = Some (JObj field_kvs)"
      and "map_of field_kvs ''combined_context'' = Some v"
      and "\<not> truthy v"
  shows "render_hit (JObj hit_kvs) = Inr (Some (JStr (JSON_stringify (JObj field_kvs))))
       \<and> JSON_stringify (JObj field_kvs) \<noteq> []
       \<and> assemble_context (JArr [JObj hit_kvs]) = Inr (JSON_stringify (JObj field_kvs))
       \<and> (\<forall>before after rendered.
             hits_map render_hit (JArr (before @ JObj hit_kvs # after)) = Inr rendered
             \<longrightarrow> rendered ! length before = Some (JStr (JSON_stringify (JObj field_kvs))))"
proof -
  from assms have r: "render_hit (JObj hit_kvs) = Inr (Some (JStr (JSON_stringify (JObj field_kvs))))"
    by (simp add: render_hit_def js_or_def)
  then have c: "assemble_context (JArr [JObj hit_kvs]) = Inr (JSON_stringify (JObj field_kvs))"
    by (simp add: assemble_context_def array_join_def del: JSON_stringify.simps)
  have n: "rendered ! length before = Some (JStr (JSON_stringify (JObj field_kvs)))"
    if h: "hits_map render_hit (JArr (before @ JObj hit_kvs # after)) = Inr rendered"
    for before after rendered
  proof -
    from h have m: "map render_hit (before @ JObj hit_kvs # after) = map Inr rendered"
      by (simp add: sequence_Inr_map)
    then have "length (before @ JObj hit_kvs # after) = length rendered"
      by (rule map_eq_imp_length_eq)
    then have l: "length before < length rendered"
      by simp
    from m have "map render_hit (before @ JObj hit_kvs # after) ! length before = map Inr rendered ! length before"
      by (rule arg_cong)
    with l r show ?thesis
      by (simp add: nth_append del: JSON_stringify.simps)
  qed
  from r c n JSON_stringify_object_not_empty show ?thesis by blast
qed

theorem falsy_text_rendered_as_dump_witness:
  "assemble_context (JArr [JObj [(''_id'', JStr ''p1''), (''fields'', JObj [(''combined_context'', JStr [])])]])
     = Inr (JSON_stringify (JObj [(''combined_context'', JStr [])]))
   \<and> assemble_context (JArr [JObj [(''fields'', JObj [(''combined_context'', JNull), (''name'', JStr ''cap'')])]])
     = Inr (JSON_stringify (JObj [(''combined_context'', JNull), (''name'', JStr ''cap'')]))"
proof -
  have a: "map_of [(''_id'', JStr ''p1''), (''fields'', JObj [(''combined_context'', JStr [])])] ''fields''
             = Some (JObj [(''combined_context'', JStr [])])"
    by simp
  have b: "map_of [(''combined_context'', JStr [])] ''combined_context'' = Some (JStr [])"
    by simp
  have c: "\<not> truthy (JStr [])"
    by simp
  have d: "map_of [(''fields'', JObj [(''combined_context'', JNull), (''name'', JStr ''cap'')])] ''fields''
             = Some (JObj [(''combined_context'', JNull), (''name'', JStr ''cap'')])"
    by simp
  have e: "map_of [(''combined_context'', JNull), (''name'', JStr ''cap'')] ''combined_context'' = Some JNull"
    by simp
  have f: "\<not> truthy JNull"
    by simp
  from falsy_text_rendered_as_dump[OF a b c] falsy_text_rendered_as_dump[OF d e f]
  show ?thesis by blast
qed

subsection \<open>Missing hits\<close>

text \<open>
  C10. When the search comes back ok and its body is an object without a \<^verbatim>\<open>result\<close>
  object, or with a \<^verbatim>\<open>result\<close> object that has no \<^verbatim>\<open>hits\<close>, reading the hits does not
  throw: they are the empty list, and \<open>ask\<close> returns the no-information answer.
\<close>

theorem missing_hits_take_fallback:
  assumes "resolve_host E s = (Inr (), s1)"
      and "translateToEnglish E q s1 = (Inr eq, s2)"
      and "search E eq (log_questions q eq s2) = (Inr response, s3)"
      and "json response = Inr searchResult"
      and "lacks_hits searchResult"
  shows "hits_of searchResult = Inr (JArr [])
       \<and> ask E q s = (Inr [(''question'', q), (''englishQuestion'', eq), (''answer'', NO_INFO_ANSWER)], s3)"
proof -
  from assms(5) have h: "hits_of searchResult = Inr (JArr [])"
    by (rule hits_of_lacking)
  have "length_is_zero (JArr []) = Inr True" by simp
  from ask_empty_path[OF assms(1-4) h this] h show ?thesis by simp
qed

theorem missing_hits_take_fallback_witness:
  "fst (ask (example_env (Inr ''h.io'') (Inr ''hello'') (Inr (ok_response (JObj [])))) ''hola'' example_start)
     = Inr [(''question'', ''hola''), (''englishQuestion'', ''hello''), (''answer'', NO_INFO_ANSWER)]
   \<and> fst (ask (example_env (Inr ''h.io'') (Inr ''hello'')
                (Inr (ok_response (JObj [(''result'', JObj [(''took'', JNum ''3'')])])))) ''hola'' example_start)
     = Inr [(''question'', ''hola''), (''englishQuestion'', ''hello''), (''answer'', NO_INFO_ANSWER)]"
proof -
  have fallback: "fst (ask (example_env (Inr ''h.io'') (Inr ''hello'') (Inr (ok_response b))) ''hola'' example_start)
     = Inr [(''question'', ''hola''), (''englishQuestion'', ''hello''), (''answer'', NO_INFO_ANSWER)]"
    if l: "lacks_hits b" for b
  proof -
    let ?E = "example_env (Inr ''h.io'') (Inr ''hello'') (Inr (ok_response b))"
    define s1 where "s1 = \<lparr>this = (this example_start)\<lparr>indexHost := ''h.io''\<rparr>, trace = [DescribeIndex ''products'']\<rparr>"
    define s2 where "s2 = s1\<lparr>trace := trace s1 @ [Invoke (llm (this s1)) (translate_prompt ''hola'')]\<rparr>"
    define s3 where "s3 = (log_questions ''hola'' ''hello'' s2)
      \<lparr>trace := trace (log_questions ''hola'' ''hello'' s2)
         @ [Fetch (search_request (indexHost (this (log_questions ''hola'' ''hello'' s2))) ''secret'' ''hello'')]\<rparr>"
    have 1: "resolve_host ?E example_start = (Inr (), s1)"
      by (simp add: s1_def example_host_resolved)
    have 2: "translateToEnglish ?E ''hola'' s1 = (Inr ''hello'', s2)"
      by (simp add: s2_def example_translated)
    have 3: "search ?E ''hello'' (log_questions ''hola'' ''hello'' s2) = (Inr (ok_response b), s3)"
      by (simp add: s3_def example_searched)
    have 4: "json (ok_response b) = Inr b"
      by (simp add: ok_response_def)
    from missing_hits_take_fallback[OF 1 2 3 4 l] show ?thesis by simp
  qed
  have "lacks_hits (JObj [])"
    by (simp add: lacks_hits_def)
  moreover have "lacks_hits (JObj [(''result'', JObj [(''took'', JNum ''3'')])])"
    by (simp add: lacks_hits_def)
  ultimately show ?thesis
    using fallback by blast
qed

end
